theory Spec2Isabelle
  imports Main
begin

section \<open>Python string operations used by the scraper\<close>

text \<open>
  A Python \<open>str\<close> is modelled as a \<open>string\<close> whose characters are the code points
  below 256. \<open>str.strip()\<close> and \<open>str.split()\<close> without arguments work on the
  characters for which \<open>str.isspace\<close> holds; below 256 these are the code points
  9 to 13, 28 to 32, 133 and 160.
\<close>

definition is_space :: "char \<Rightarrow> bool" where
  "is_space c = (c = CHR 0x09 \<or> c = CHR 0x0A \<or> c = CHR 0x0B \<or> c = CHR 0x0C \<or> c = CHR 0x0D
     \<or> c = CHR 0x1C \<or> c = CHR 0x1D \<or> c = CHR 0x1E \<or> c = CHR 0x1F \<or> c = CHR 0x20
     \<or> c = CHR 0x85 \<or> c = CHR 0xA0)"

text \<open>\<open>s.strip(chars)\<close> and \<open>s.strip()\<close>: drop from both ends while the predicate holds.\<close>

definition strip_while :: "(char \<Rightarrow> bool) \<Rightarrow> string \<Rightarrow> string" where
  "strip_while P s = rev (dropWhile P (rev (dropWhile P s)))"

definition py_strip :: "string \<Rightarrow> string" where
  "py_strip s = strip_while is_space s"

definition py_strip_chars :: "string \<Rightarrow> string \<Rightarrow> string" where
  "py_strip_chars cs s = strip_while (\<lambda>c. c \<in> set cs) s"

text \<open>\<open>s.replace(a, b)\<close> for one-character \<open>a\<close> and \<open>b\<close>.\<close>

definition py_replace :: "char \<Rightarrow> char \<Rightarrow> string \<Rightarrow> string" where
  "py_replace a b s = map (\<lambda>c. if c = a then b else c) s"

text \<open>\<open>s.split()\<close>: the maximal runs of non-space characters, in order.\<close>

function py_split :: "string \<Rightarrow> string list" where
  "py_split s =
     (case dropWhile is_space s of
        [] \<Rightarrow> []
      | c # cs \<Rightarrow> (c # takeWhile (\<lambda>x. \<not> is_space x) cs)
                  # py_split (dropWhile (\<lambda>x. \<not> is_space x) cs))"
  by pat_completeness auto
termination
proof (relation "measure length")
  show "wf (measure length)" by simp
next
  fix s :: string and c cs
  assume h: "dropWhile is_space s = c # cs"
  have "length (dropWhile (\<lambda>x. \<not> is_space x) cs) \<le> length cs"
    by (rule length_dropWhile_le)
  moreover have "length (c # cs) \<le> length s"
    using length_dropWhile_le [of is_space s] h by simp
  ultimately show "(dropWhile (\<lambda>x. \<not> is_space x) cs, s) \<in> measure length"
    by simp
qed

declare py_split.simps [simp del]

text \<open>\<open>sep.join(ws)\<close>.\<close>

fun py_join :: "string \<Rightarrow> string list \<Rightarrow> string" where
  "py_join sep [] = []"
| "py_join sep [w] = w"
| "py_join sep (w # v # ws) = w @ sep @ py_join sep (v # ws)"

text \<open>\<open>s.split(sep)\<close> for a one-character separator: never the empty list.\<close>

fun py_split_on :: "char \<Rightarrow> string \<Rightarrow> string list" where
  "py_split_on sep [] = [[]]"
| "py_split_on sep (c # cs) =
     (if c = sep then [] # py_split_on sep cs
      else (case py_split_on sep cs of
              [] \<Rightarrow> [[c]]
            | w # ws \<Rightarrow> (c # w) # ws))"

section \<open>Identity normalizer\<close>

definition normalize_country_name :: "string \<Rightarrow> string" where
  "normalize_country_name raw =
     (if raw = [] then []
      else
        let s = py_strip raw;
            s = py_strip_chars [CHR ''/'', CHR ''_'', CHR ''.'', CHR '' '', CHR 0x09, CHR 0x0D, CHR 0x0A] s;
            s = py_replace CHR ''-'' CHR '' '' (py_replace CHR ''_'' CHR '' '' s);
            s = py_join '' '' (py_split s)
        in s)"

section \<open>Errors, timestamps, rows and documents\<close>

text \<open>
  Exceptions are values. \<open>RequestException\<close> stands for every failure of an HTTP
  request (transport failure, an error status reported by \<open>raise_for_status\<close>, a body
  that is not JSON); \<open>PyMongoError\<close> for every failure of the document store.
\<close>

datatype error = TypeError | AttributeError | RequestException string | PyMongoError string

text \<open>
  A \<open>datetime\<close> is its wall-clock reading in microseconds and, when it is
  timezone-aware, its offset from UTC in microseconds. A \<open>timedelta\<close> is a number of
  microseconds.
\<close>

record datetime =
  wall :: int
  utcoffset :: "int option"

definition utc_datetime :: "int \<Rightarrow> datetime" where
  "utc_datetime t = \<lparr>wall = t, utcoffset = Some 0\<rparr>"

text \<open>Subtraction of datetimes: mixing a naive and an aware operand raises \<open>TypeError\<close>.\<close>

definition datetime_sub :: "datetime \<Rightarrow> datetime \<Rightarrow> error + int" where
  "datetime_sub a b =
     (case utcoffset a of
        None \<Rightarrow> (case utcoffset b of None \<Rightarrow> Inr (wall a - wall b) | Some ob \<Rightarrow> Inl TypeError)
      | Some oa \<Rightarrow> (case utcoffset b of None \<Rightarrow> Inl TypeError
                    | Some ob \<Rightarrow> Inr ((wall a - oa) - (wall b - ob))))"

definition timedelta_weeks :: "int \<Rightarrow> int" where
  "timedelta_weeks w = w * 7 * 24 * 3600 * 1000000"

definition FRESHNESS_WEEKS :: int where
  "FRESHNESS_WEEKS = 4"

definition BASE_URL :: string where
  "BASE_URL = ''https://www.theswiftcodes.com''"

definition BROWSE_URL :: string where
  "BROWSE_URL = BASE_URL @ ''/browse-by-country/''"

text \<open>
  A row has exactly the four keys that \<open>parse_country_page\<close> writes. A document is the
  row spread into a dictionary with the four identity keys; \<open>createdAt\<close> and
  \<open>updatedAt\<close> are \<open>None\<close> while the key is not in the dictionary. \<open>iso_code\<close> and
  \<open>iso3\<close> are keys that are always present and may hold Python's \<open>None\<close>.
\<close>

record row =
  name :: string
  swift_code :: string
  city :: string
  branch :: string

record doc = row +
  iso_code :: "string option"
  iso3 :: "string option"
  country :: string
  page :: string
  createdAt :: "datetime option"
  updatedAt :: "datetime option"

type_synonym ledger = "string \<rightharpoonup> string"

section \<open>The external collaborators\<close>

text \<open>
  What \<open>BeautifulSoup\<close> answers to the selectors the scraper uses: the anchors of
  \<open>ol > li > a\<close> with their \<open>href\<close> attribute (if any) and stripped text, the first
  \<open>span.next > a\<close> (if any) with its \<open>href\<close> attribute (if any), and the stripped
  texts of the four table columns.
\<close>

record soup =
  anchors :: "(string option \<times> string) list"
  next_link :: "string option option"
  td_name :: "string list"
  td_swift :: "string list"
  td_city :: "string list"
  td_branch :: "string list"

text \<open>
  The decoded body of the identity service: a list of candidates or some other JSON
  value. A candidate that is a JSON object has optional \<open>cca2\<close> and \<open>cca3\<close> strings and a
  \<open>name\<close> member that is missing, an object with an optional \<open>common\<close> string, or
  something else.
\<close>

datatype name_field = NameAbsent | NameObject "string option" | NameOther

datatype candidate = NotAnObject | Country "string option" "string option" name_field

datatype json_body = NotAList | Results "candidate list"

datatype collection = Collection

text \<open>
  The environment of a run: the answer of the web site to each URL, the answer of the
  identity service to each (quoted) name, whether the document store answers the ping,
  whether it accepts a batch, the successive readings of the UTC clock in microseconds,
  and the standard library's \<open>datetime.fromisoformat\<close> (\<open>None\<close> when it raises) and
  \<open>datetime.isoformat\<close>.
\<close>

record env =
  http_get :: "string \<Rightarrow> error + soup"
  iso_service :: "string \<Rightarrow> error + json_body"
  mongo_connect :: "error + collection"
  insert_many :: "doc list \<Rightarrow> error option"
  clock :: "nat \<Rightarrow> int"
  fromisoformat :: "string \<Rightarrow> datetime option"
  isoformat :: "datetime \<Rightarrow> string"

text \<open>
  The state outside the Python heap: the two files (\<open>None\<close> while a file does not
  exist), the URLs requested through \<open>fetch_html\<close>, the names sent to the identity
  service, the documents inserted into the store, and the number of clock readings so
  far. Console output and the one-second pause after each page are not modelled, and
  file operations do not fail.
\<close>

record world =
  freshness_file :: "ledger option"
  data_file :: "doc list option"
  requested :: "string list"
  lookups :: "string list"
  stored :: "doc list"
  ticks :: nat

definition utcnow :: "env \<Rightarrow> world \<Rightarrow> datetime \<times> world" where
  "utcnow e st = (utc_datetime (clock e (ticks st)), st\<lparr>ticks := Suc (ticks st)\<rparr>)"

section \<open>Freshness ledger and identity resolver\<close>

definition load_freshness :: "world \<Rightarrow> ledger" where
  "load_freshness st = (case freshness_file st of None \<Rightarrow> Map.empty | Some m \<Rightarrow> m)"

definition save_freshness :: "ledger \<Rightarrow> world \<Rightarrow> world" where
  "save_freshness data st = st\<lparr>freshness_file := Some data\<rparr>"

text \<open>The body of the \<open>try\<close> block of \<open>lookup_iso\<close>: \<open>Inr None\<close> when it falls through.\<close>

definition lookup_iso_try ::
  "env \<Rightarrow> string \<Rightarrow> error + (string option \<times> string option \<times> string option) option" where
  "lookup_iso_try e country_name =
     (case iso_service e country_name of
        Inl err \<Rightarrow> Inl err
      | Inr NotAList \<Rightarrow> Inr None
      | Inr (Results []) \<Rightarrow> Inr None
      | Inr (Results (c # cs)) \<Rightarrow>
          (case c of
             NotAnObject \<Rightarrow> Inl AttributeError
           | Country a2 a3 nm \<Rightarrow>
               (case nm of
                  NameAbsent \<Rightarrow> Inr (Some (a2, a3, None))
                | NameObject common \<Rightarrow> Inr (Some (a2, a3, common))
                | NameOther \<Rightarrow> Inl AttributeError)))"

definition lookup_iso ::
  "env \<Rightarrow> string \<Rightarrow> world \<Rightarrow> (string option \<times> string option \<times> string option) \<times> world" where
  "lookup_iso e country_name st =
     (if country_name = [] then ((None, None, None), st)
      else
        (case lookup_iso_try e country_name of
           Inl err \<Rightarrow> (None, None, None)
         | Inr None \<Rightarrow> (None, None, None)
         | Inr (Some t) \<Rightarrow> t,
         st\<lparr>lookups := lookups st @ [country_name]\<rparr>))"

definition should_scrape ::
  "env \<Rightarrow> string option \<Rightarrow> ledger \<Rightarrow> world \<Rightarrow> (error + bool \<times> string) \<times> world" where
  "should_scrape e iso2 freshness st =
     (case iso2 of
        None \<Rightarrow> (Inr (True, ''No iso2 code; defaulting to scrape.''), st)
      | Some code \<Rightarrow>
          if code = [] then (Inr (True, ''No iso2 code; defaulting to scrape.''), st)
          else
            (case freshness code of
               None \<Rightarrow> (Inr (True, ''No previous scrape recorded.''), st)
             | Some last_str \<Rightarrow>
                 if last_str = [] then (Inr (True, ''No previous scrape recorded.''), st)
                 else
                   (case fromisoformat e last_str of
                      None \<Rightarrow>
                        (Inr (True, ''Invalid stored date '' @ [CHR 0x27] @ last_str
                                      @ [CHR 0x27] @ '', scraping.''), st)
                    | Some last_dt \<Rightarrow>
                        (case utcnow e st of
                           (now, st1) \<Rightarrow>
                             (case datetime_sub now last_dt of
                                Inl err \<Rightarrow> (Inl err, st1)
                              | Inr age \<Rightarrow>
                                  if age < timedelta_weeks FRESHNESS_WEEKS
                                  then (Inr (False, ''Scraped recently at ''
                                                      @ isoformat e last_dt @ ''.''), st1)
                                  else (Inr (True, ''Data stale; last scrape at ''
                                                     @ isoformat e last_dt @ ''.''), st1))))))"

section \<open>HTML helpers\<close>

definition fetch_html :: "env \<Rightarrow> string \<Rightarrow> world \<Rightarrow> (error + soup) \<times> world" where
  "fetch_html e url st = (http_get e url, st\<lparr>requested := requested st @ [url]\<rparr>)"

fun collect_links :: "(string option \<times> string) list \<Rightarrow> (string \<times> string) list" where
  "collect_links [] = []"
| "collect_links ((href, text) # rest) =
     (case href of
        None \<Rightarrow> collect_links rest
      | Some h \<Rightarrow> if h = [] then collect_links rest else (h, text) # collect_links rest)"

definition get_country_links ::
  "env \<Rightarrow> world \<Rightarrow> (error + (string \<times> string) list) \<times> world" where
  "get_country_links e st =
     (case fetch_html e BROWSE_URL st of
        (Inl err, st1) \<Rightarrow> (Inl err, st1)
      | (Inr sp, st1) \<Rightarrow> (Inr (collect_links (anchors sp)), st1))"

definition page_rows :: "soup \<Rightarrow> row list" where
  "page_rows sp =
     map (\<lambda>i. \<lparr>name = td_name sp ! i, swift_code = td_swift sp ! i,
               city = td_city sp ! i, branch = td_branch sp ! i\<rparr>)
         [0 ..< min (length (td_name sp)) (min (length (td_swift sp))
                  (min (length (td_city sp)) (length (td_branch sp))))]"

definition page_next :: "soup \<Rightarrow> string option" where
  "page_next sp = (case next_link sp of None \<Rightarrow> None | Some href \<Rightarrow> href)"

definition parse_country_page ::
  "env \<Rightarrow> string \<Rightarrow> world \<Rightarrow> (error + row list \<times> string option) \<times> world" where
  "parse_country_page e path st =
     (case fetch_html e (BASE_URL @ path) st of
        (Inl err, st1) \<Rightarrow> (Inl err, st1)
      | (Inr sp, st1) \<Rightarrow> (Inr (page_rows sp, page_next sp), st1))"

section \<open>Document store\<close>

definition get_mongo_collection :: "env \<Rightarrow> error + collection" where
  "get_mongo_collection e = mongo_connect e"

definition stamp :: "datetime \<Rightarrow> doc \<Rightarrow> doc" where
  "stamp now d =
     d\<lparr>createdAt := (case createdAt d of None \<Rightarrow> Some now | Some t \<Rightarrow> Some t),
       updatedAt := Some now\<rparr>"

text \<open>
  The writer mutates the dictionaries it is given, so it returns them: also when
  \<open>insert_many\<close> raises, which is after the loop that stamps them. What the driver itself
  does to the documents and to the store when an insert fails is not modelled.
\<close>

definition save_documents_mongo ::
  "env \<Rightarrow> collection \<Rightarrow> doc list \<Rightarrow> world \<Rightarrow> error option \<times> doc list \<times> world" where
  "save_documents_mongo e coll docs st =
     (if docs = [] then (None, docs, st)
      else
        (case utcnow e st of
           (now, st1) \<Rightarrow>
             (let docs1 = map (stamp now) docs in
              case insert_many e docs1 of
                Some err \<Rightarrow> (Some err, docs1, st1)
              | None \<Rightarrow> (None, docs1, st1\<lparr>stored := stored st1 @ docs1\<rparr>))))"

section \<open>Main scraping logic\<close>

definition decorate :: "string option \<Rightarrow> string option \<Rightarrow> string \<Rightarrow> string \<Rightarrow> row \<Rightarrow> doc" where
  "decorate i2 i3 country_name current_path r =
     \<lparr>name = name r, swift_code = swift_code r, city = city r, branch = branch r,
      iso_code = i2, iso3 = i3, country = country_name, page = current_path,
      createdAt = None, updatedAt = None\<rparr>"

text \<open>
  The \<open>while current_path:\<close> loop of \<open>scrape_country\<close>. It returns the exception that
  left it (if any), the accumulator and the world as they are at that moment. A page
  chain that never ends makes it \<open>None\<close>.
\<close>

partial_function (option) walk ::
  "env \<Rightarrow> collection option \<Rightarrow> string option \<Rightarrow> string option \<Rightarrow> string \<Rightarrow>
   string option \<Rightarrow> doc list \<Rightarrow> world \<Rightarrow> (error option \<times> doc list \<times> world) option" where
  "walk e coll i2 i3 country_name current_path all_docs st =
     (case current_path of
        None \<Rightarrow> Some (None, all_docs, st)
      | Some path \<Rightarrow>
          if path = [] then Some (None, all_docs, st)
          else
            (case parse_country_page e path st of
               (Inl err, st1) \<Rightarrow> Some (Some err, all_docs, st1)
             | (Inr (rows, next_href), st1) \<Rightarrow>
                 (case (case coll of
                          None \<Rightarrow> (map (decorate i2 i3 country_name path) rows, st1)
                        | Some c \<Rightarrow>
                            (case save_documents_mongo e c
                                    (map (decorate i2 i3 country_name path) rows) st1 of
                               (caught, docs, st2) \<Rightarrow> (docs, st2))) of
                    (docs, st2) \<Rightarrow>
                      walk e coll i2 i3 country_name next_href (all_docs @ docs) st2)))"

declare walk.simps [code]

definition country_name_of :: "string \<Rightarrow> string \<Rightarrow> string" where
  "country_name_of country_href country_label =
     (let raw_country_from_href = hd (py_split_on CHR ''_'' (py_strip_chars ''/'' country_href))
      in normalize_country_name
           (if raw_country_from_href = [] then country_label else raw_country_from_href))"

text \<open>
  \<open>scrape_country\<close> returns the exception that left it (if any) and the ledger, the
  accumulator and the world as it leaves them. A ledger or accumulator that is not
  passed is created empty.
\<close>

definition scrape_country ::
  "env \<Rightarrow> string \<Rightarrow> string \<Rightarrow> collection option \<Rightarrow> ledger option \<Rightarrow> doc list option \<Rightarrow>
   world \<Rightarrow> (error option \<times> ledger \<times> doc list \<times> world) option" where
  "scrape_country e country_href country_label coll freshness_arg all_docs_arg st =
     (let freshness = (case freshness_arg of None \<Rightarrow> Map.empty | Some f \<Rightarrow> f);
          all_docs = (case all_docs_arg of None \<Rightarrow> [] | Some d \<Rightarrow> d);
          country_name = country_name_of country_href country_label
      in case lookup_iso e country_name st of
           ((i2, i3, matched_name), st1) \<Rightarrow>
             (case should_scrape e i2 freshness st1 of
                (Inl err, st2) \<Rightarrow> Some (Some err, freshness, all_docs, st2)
              | (Inr (ok, reason), st2) \<Rightarrow>
                  if \<not> ok then Some (None, freshness, all_docs, st2)
                  else
                    (case walk e coll i2 i3 country_name (Some country_href) all_docs st2 of
                       None \<Rightarrow> None
                     | Some (Some err, docs, st3) \<Rightarrow> Some (Some err, freshness, docs, st3)
                     | Some (None, docs, st3) \<Rightarrow>
                         (case i2 of
                            None \<Rightarrow> Some (None, freshness, docs, st3)
                          | Some code \<Rightarrow>
                              if code = [] then Some (None, freshness, docs, st3)
                              else
                                (case utcnow e st3 of
                                   (now, st4) \<Rightarrow>
                                     Some (None, freshness(code \<mapsto> isoformat e now),
                                           docs, st4))))))"

text \<open>The loop of \<open>main\<close> over the country links; every exception of a partition is caught.\<close>

fun main_loop ::
  "env \<Rightarrow> collection option \<Rightarrow> (string \<times> string) list \<Rightarrow> ledger \<Rightarrow> doc list \<Rightarrow> world \<Rightarrow>
   (ledger \<times> doc list \<times> world) option" where
  "main_loop e coll [] freshness all_docs st = Some (freshness, all_docs, st)"
| "main_loop e coll ((href, label) # rest) freshness all_docs st =
     (case scrape_country e href label coll (Some freshness) (Some all_docs) st of
        None \<Rightarrow> None
      | Some (caught, freshness1, all_docs1, st1) \<Rightarrow>
          main_loop e coll rest freshness1 all_docs1 st1)"

text \<open>Steps 5 and 6 of \<open>main\<close>: the data file, then the ledger.\<close>

definition finish :: "ledger \<Rightarrow> doc list \<Rightarrow> world \<Rightarrow> world" where
  "finish freshness all_docs st =
     save_freshness freshness
       (if all_docs \<noteq> [] then st\<lparr>data_file := Some all_docs\<rparr> else st)"

text \<open>
  \<open>main\<close> in two parts. Steps 1 to 4: load the ledger, fetch the directory (an exception
  of this fetch is not caught), connect to the store if it answers, and run the loop; the
  result is the ledger and the accumulator as they stand before step 5.
\<close>

definition main_collect :: "env \<Rightarrow> world \<Rightarrow> ((error + ledger \<times> doc list) \<times> world) option" where
  "main_collect e st =
     (let freshness = load_freshness st in
      case get_country_links e st of
        (Inl err, st1) \<Rightarrow> Some (Inl err, st1)
      | (Inr country_links, st1) \<Rightarrow>
          (let coll = (case get_mongo_collection e of Inl err \<Rightarrow> None | Inr c \<Rightarrow> Some c) in
           case main_loop e coll country_links freshness [] st1 of
             None \<Rightarrow> None
           | Some (freshness1, all_docs, st2) \<Rightarrow> Some (Inr (freshness1, all_docs), st2)))"

definition main :: "env \<Rightarrow> world \<Rightarrow> (error option \<times> world) option" where
  "main e st =
     (case main_collect e st of
        None \<Rightarrow> None
      | Some (Inl err, st1) \<Rightarrow> Some (Some err, st1)
      | Some (Inr (freshness1, all_docs), st2) \<Rightarrow> Some (None, finish freshness1 all_docs st2))"

text \<open>What of the world is outside the document store: the two files, the requests, the lookups and the clock.\<close>

definition outside_store ::
  "world \<Rightarrow> ledger option \<times> doc list option \<times> string list \<times> string list \<times> nat" where
  "outside_store st = (freshness_file st, data_file st, requested st, lookups st, ticks st)"

section \<open>The decision order in the words of the specification\<close>

datatype reason = NoIdentityCode | NoPriorRecord | CorruptTimestamp string
  | ScrapedRecently datetime | DataStale datetime

text \<open>The message that \<open>should_scrape\<close> gives for each reason.\<close>

definition reason_text :: "env \<Rightarrow> reason \<Rightarrow> string" where
  "reason_text e r =
     (case r of
        NoIdentityCode \<Rightarrow> ''No iso2 code; defaulting to scrape.''
      | NoPriorRecord \<Rightarrow> ''No previous scrape recorded.''
      | CorruptTimestamp last_str \<Rightarrow>
          ''Invalid stored date '' @ [CHR 0x27] @ last_str @ [CHR 0x27] @ '', scraping.''
      | ScrapedRecently last_dt \<Rightarrow> ''Scraped recently at '' @ isoformat e last_dt @ ''.''
      | DataStale last_dt \<Rightarrow> ''Data stale; last scrape at '' @ isoformat e last_dt @ ''.'')"

definition utc_instant :: "datetime \<Rightarrow> int" where
  "utc_instant dt = wall dt - (case utcoffset dt of None \<Rightarrow> 0 | Some off \<Rightarrow> off)"

text \<open>
  The five steps of the specification, in its order: identity code absent, no ledger
  entry, timestamp that does not parse, younger than four weeks, otherwise stale.
\<close>

definition five_steps :: "env \<Rightarrow> int \<Rightarrow> string option \<Rightarrow> ledger \<Rightarrow> bool \<times> reason" where
  "five_steps e now iso2 freshness =
     (case iso2 of
        None \<Rightarrow> (True, NoIdentityCode)
      | Some code \<Rightarrow>
          (case freshness code of
             None \<Rightarrow> (True, NoPriorRecord)
           | Some last_str \<Rightarrow>
               (case fromisoformat e last_str of
                  None \<Rightarrow> (True, CorruptTimestamp last_str)
                | Some last_dt \<Rightarrow>
                    if now - utc_instant last_dt < 4 * 7 * 24 * 3600 * 1000000
                    then (False, ScrapedRecently last_dt)
                    else (True, DataStale last_dt))))"

text \<open>Python's truth test on an optional string: the empty string counts as absent.\<close>

definition truthy :: "string option \<Rightarrow> string option" where
  "truthy x = (case x of None \<Rightarrow> None | Some s \<Rightarrow> if s = [] then None else Some s)"

section \<open>Page chains\<close>

text \<open>
  The pages that a walk starting at \<open>cp\<close> meets, as the site serves them: the successive
  paths with their pages, where each page's next-page reference is the next path and the
  last page's leads nowhere (no link, a link without \<open>href\<close>, or an empty \<open>href\<close>).
\<close>

fun chain :: "env \<Rightarrow> string option \<Rightarrow> (string \<times> soup) list \<Rightarrow> bool" where
  "chain e cp [] = (cp = None \<or> cp = Some [])"
| "chain e cp ((path, sp) # rest) =
     (cp = Some path \<and> path \<noteq> [] \<and> http_get e (BASE_URL @ path) = Inr sp
      \<and> chain e (page_next sp) rest)"

text \<open>The same, but the request for the path \<open>bad\<close> that follows the pages raises \<open>err\<close>.\<close>

fun broken_chain :: "env \<Rightarrow> string option \<Rightarrow> (string \<times> soup) list \<Rightarrow> string \<Rightarrow> error \<Rightarrow> bool" where
  "broken_chain e cp [] bad err =
     (cp = Some bad \<and> bad \<noteq> [] \<and> http_get e (BASE_URL @ bad) = Inl err)"
| "broken_chain e cp ((path, sp) # rest) bad err =
     (cp = Some path \<and> path \<noteq> [] \<and> http_get e (BASE_URL @ path) = Inr sp
      \<and> broken_chain e (page_next sp) rest bad err)"

section \<open>An example environment\<close>

text \<open>
  A formatter that writes a datetime the way \<open>datetime.isoformat\<close> does, and the values
  of \<open>datetime.fromisoformat\<close> on three strings; both are used by the examples only.
\<close>

definition digit_char :: "int \<Rightarrow> char" where
  "digit_char d = ''0123456789'' ! nat (d mod 10)"

definition pad2 :: "int \<Rightarrow> string" where
  "pad2 n = [digit_char (n div 10), digit_char n]"

definition pad4 :: "int \<Rightarrow> string" where
  "pad4 n = pad2 (n div 100) @ pad2 n"

definition pad6 :: "int \<Rightarrow> string" where
  "pad6 n = pad2 (n div 10000) @ pad4 n"

definition civil_from_days :: "int \<Rightarrow> int \<times> int \<times> int" where
  "civil_from_days z =
     (let z1 = z + 719468;
          era = z1 div 146097;
          doe = z1 - era * 146097;
          yoe = (doe - doe div 1460 + doe div 36524 - doe div 146096) div 365;
          doy = doe - (365 * yoe + yoe div 4 - yoe div 100);
          mp = (5 * doy + 2) div 153;
          d = doy - (153 * mp + 2) div 5 + 1;
          m = (if mp < 10 then mp + 3 else mp - 9);
          y = yoe + era * 400 + (if m \<le> 2 then 1 else 0)
      in (y, m, d))"

definition example_isoformat :: "datetime \<Rightarrow> string" where
  "example_isoformat dt =
     (let us = wall dt mod 1000000;
          secs = wall dt div 1000000;
          tod = secs mod 86400
      in case civil_from_days (secs div 86400) of
           (y, m, d) \<Rightarrow>
             pad4 y @ ''-'' @ pad2 m @ ''-'' @ pad2 d @ ''T''
             @ pad2 (tod div 3600) @ '':'' @ pad2 (tod div 60 mod 60) @ '':'' @ pad2 (tod mod 60)
             @ (if us = 0 then [] else ''.'' @ pad6 us)
             @ (case utcoffset dt of
                  None \<Rightarrow> []
                | Some off \<Rightarrow>
                    (let a = abs off div 1000000 in
                     (if off < 0 then ''-'' else ''+'')
                     @ pad2 (a div 3600) @ '':'' @ pad2 (a div 60 mod 60)
                     @ (if a mod 60 = 0 \<and> abs off mod 1000000 = 0 then []
                        else '':'' @ pad2 (a mod 60)
                             @ (if abs off mod 1000000 = 0 then []
                                else ''.'' @ pad6 (abs off mod 1000000))))))"

definition example_fromisoformat :: "string \<Rightarrow> datetime option" where
  "example_fromisoformat s =
     (if s = ''2024-01-01T00:00:00+00:00'' then Some \<lparr>wall = 1704067200000000, utcoffset = Some 0\<rparr>
      else if s = ''2023-01-01T00:00:00+00:00'' then Some \<lparr>wall = 1672531200000000, utcoffset = Some 0\<rparr>
      else if s = ''2024-01-01T00:00:00'' then Some \<lparr>wall = 1704067200000000, utcoffset = None\<rparr>
      else None)"

definition bank_a :: row where
  "bank_a = \<lparr>name = ''Bank A'', swift_code = ''AAAABBCC'', city = ''Town'', branch = ''HQ''\<rparr>"

text \<open>
  The end-to-end scenario: the directory lists the partition \<open>/x_swift_codes.html\<close> with
  the label \<open>X\<close>, its only page has the row of Bank A and no next page, the identity
  service answers \<open>XX\<close> to every name, the document store is unreachable, and the clock
  reads one second past midnight of 2024-01-01 and advances a second per reading.
\<close>

definition example_directory :: soup where
  "example_directory =
     \<lparr>anchors = [(Some ''/x_swift_codes.html'', ''X'')], next_link = None,
      td_name = [], td_swift = [], td_city = [], td_branch = []\<rparr>"

definition example_page :: soup where
  "example_page =
     \<lparr>anchors = [], next_link = None,
      td_name = [''Bank A''], td_swift = [''AAAABBCC''],
      td_city = [''Town''], td_branch = [''HQ'']\<rparr>"

definition example_http :: "string \<Rightarrow> error + soup" where
  "example_http url =
     (if url = ''https://www.theswiftcodes.com/browse-by-country/'' then Inr example_directory
      else if url = ''https://www.theswiftcodes.com/x_swift_codes.html'' then Inr example_page
      else Inl (RequestException ''404 Client Error''))"

definition example_env :: env where
  "example_env =
     \<lparr>http_get = example_http,
      iso_service = (\<lambda>nm. Inr (Results [Country (Some ''XX'') (Some ''XXX'')
                                          (NameObject (Some ''Xland''))])),
      mongo_connect = Inl (PyMongoError ''ServerSelectionTimeoutError''),
      insert_many = (\<lambda>docs. None),
      clock = (\<lambda>n. 1704067201000000 + 1000000 * int n),
      fromisoformat = example_fromisoformat,
      isoformat = example_isoformat\<rparr>"

definition first_run :: world where
  "first_run = \<lparr>freshness_file = None, data_file = None, requested = [], lookups = [],
                stored = [], ticks = 0\<rparr>"

text \<open>The same scenario with a document store that answers and accepts every batch.\<close>

definition example_env_store :: env where
  "example_env_store = example_env\<lparr>mongo_connect := Inr Collection\<rparr>"

text \<open>A world whose ledger file has an entry left by an earlier run, for another code.\<close>

definition later_run :: world where
  "later_run = first_run\<lparr>freshness_file := Some [''YY'' \<mapsto> ''2023-01-01T00:00:00+00:00'']\<rparr>"

text \<open>A world whose ledger file has an entry for \<open>XX\<close> that is one second old.\<close>

definition fresh_run :: world where
  "fresh_run = first_run\<lparr>freshness_file := Some [''XX'' \<mapsto> ''2024-01-01T00:00:00+00:00'']\<rparr>"

text \<open>A document store that refuses every batch.\<close>

definition failing_insert :: "doc list \<Rightarrow> error option" where
  "failing_insert docs = Some (PyMongoError ''BulkWriteError'')"

text \<open>
  A partition of three pages with one row each, and the same partition when the request
  for its second page fails.
\<close>

definition one_row_page :: "string \<Rightarrow> string option \<Rightarrow> soup" where
  "one_row_page bank next_href =
     \<lparr>anchors = [], next_link = (case next_href of None \<Rightarrow> None | Some h \<Rightarrow> Some (Some h)),
      td_name = [bank], td_swift = [''AAAABBCC''], td_city = [''Town''], td_branch = [''HQ'']\<rparr>"

definition three_pages_http :: "string \<Rightarrow> error + soup" where
  "three_pages_http url =
     (if url = ''https://www.theswiftcodes.com/c_swift_codes.html''
        then Inr (one_row_page ''Bank A'' (Some ''/c_swift_codes_page_2.html''))
      else if url = ''https://www.theswiftcodes.com/c_swift_codes_page_2.html''
        then Inr (one_row_page ''Bank B'' (Some ''/c_swift_codes_page_3.html''))
      else if url = ''https://www.theswiftcodes.com/c_swift_codes_page_3.html''
        then Inr (one_row_page ''Bank C'' None)
      else Inl (RequestException ''404 Client Error''))"

definition three_pages_env :: env where
  "three_pages_env = example_env\<lparr>http_get := three_pages_http\<rparr>"

definition broken_pages_env :: env where
  "broken_pages_env =
     three_pages_env\<lparr>http_get := three_pages_http
        (''https://www.theswiftcodes.com/c_swift_codes_page_2.html''
           := Inl (RequestException ''500 Server Error''))\<rparr>"

section \<open>Facts about the example environment\<close>

lemma example_env_sel:
  "http_get example_env = example_http"
  "iso_service example_env nm
     = Inr (Results [Country (Some ''XX'') (Some ''XXX'') (NameObject (Some ''Xland''))])"
  "mongo_connect example_env = Inl (PyMongoError ''ServerSelectionTimeoutError'')"
  "insert_many example_env docs = None"
  "clock example_env n = 1704067201000000 + 1000000 * int n"
  "fromisoformat example_env = example_fromisoformat"
  "isoformat example_env = example_isoformat"
  by (simp_all add: example_env_def)

lemma example_isoformat_2024:
  "example_isoformat \<lparr>wall = 1704067200000000, utcoffset = Some 0\<rparr> = ''2024-01-01T00:00:00+00:00''"
  by code_simp

lemma example_env_store_sel:
  "http_get example_env_store = example_http"
  "iso_service example_env_store nm
     = Inr (Results [Country (Some ''XX'') (Some ''XXX'') (NameObject (Some ''Xland''))])"
  "mongo_connect example_env_store = Inr Collection"
  "insert_many example_env_store docs = None"
  "clock example_env_store n = 1704067201000000 + 1000000 * int n"
  "fromisoformat example_env_store = example_fromisoformat"
  "isoformat example_env_store = example_isoformat"
  by (simp_all add: example_env_store_def example_env_def)

lemma example_country_name: "country_name_of ''/x_swift_codes.html'' ''X'' = ''x''"
  by code_simp

lemma example_isoformat_1s:
  "example_isoformat \<lparr>wall = 1704067201000000, utcoffset = Some 0\<rparr> = ''2024-01-01T00:00:01+00:00''"
  by code_simp

lemma example_isoformat_2s:
  "example_isoformat \<lparr>wall = 1704067202000000, utcoffset = Some 0\<rparr> = ''2024-01-01T00:00:02+00:00''"
  by code_simp

section \<open>The identity resolver\<close>

text \<open>
  Claim C7. For the empty name \<open>lookup_iso\<close> returns three times \<open>None\<close> and leaves the
  world as it is: no request is sent. For a non-empty name it returns three times \<open>None\<close>
  when the request raises (a transport error or an error status) and when the service
  answers the empty list, and no exception leaves the function (its result is a plain
  triple); when the first element of the answer is an object whose \<open>name\<close> is an object, it
  returns the \<open>cca2\<close>, \<open>cca3\<close> and \<open>name.common\<close> of that first element, whatever follows
  it in the list.
\<close>

theorem lookup_iso_contract:
  "lookup_iso e [] st = ((None, None, None), st)
   \<and> (nm \<noteq> [] \<longrightarrow>
        (\<forall>err. iso_service e nm = Inl err \<longrightarrow> fst (lookup_iso e nm st) = (None, None, None))
      \<and> (iso_service e nm = Inr (Results []) \<longrightarrow> fst (lookup_iso e nm st) = (None, None, None))
      \<and> (\<forall>a2 a3 common rest.
            iso_service e nm = Inr (Results (Country a2 a3 (NameObject common) # rest))
            \<longrightarrow> fst (lookup_iso e nm st) = (a2, a3, common)))"
  by (simp add: lookup_iso_def lookup_iso_try_def)

theorem lookup_iso_contract_witness:
  "lookup_iso example_env [] first_run = ((None, None, None), first_run)
   \<and> fst (lookup_iso (example_env\<lparr>iso_service := \<lambda>nm. Inl (RequestException ''timeout'')\<rparr>)
            ''x'' first_run) = (None, None, None)
   \<and> fst (lookup_iso (example_env\<lparr>iso_service := \<lambda>nm. Inr (Results [])\<rparr>) ''x'' first_run)
       = (None, None, None)
   \<and> fst (lookup_iso example_env ''x'' first_run) = (Some ''XX'', Some ''XXX'', Some ''Xland'')"
  using lookup_iso_contract [of example_env first_run "''x''"]
    lookup_iso_contract [of "example_env\<lparr>iso_service := \<lambda>nm. Inl (RequestException ''timeout'')\<rparr>"
                            first_run "''x''"]
    lookup_iso_contract [of "example_env\<lparr>iso_service := \<lambda>nm. Inr (Results [])\<rparr>"
                            first_run "''x''"]
  by (simp add: example_env_def)

section \<open>The freshness decision\<close>

text \<open>
  Claim C9. \<open>should_scrape\<close> does not always return a pair: when the identity code is a
  non-empty string whose ledger entry is a non-empty string that \<open>fromisoformat\<close> parses
  to a datetime without a timezone, subtracting it from the timezone-aware current time
  raises \<open>TypeError\<close>, and the subtraction is outside the \<open>try\<close> block, so the exception
  leaves \<open>should_scrape\<close>.
\<close>

theorem should_scrape_naive_raises:
  assumes "code \<noteq> []" and "freshness code = Some last_str" and "last_str \<noteq> []"
    and "fromisoformat e last_str = Some last_dt" and "utcoffset last_dt = None"
  shows "fst (should_scrape e (Some code) freshness st) = Inl TypeError"
  using assms by (simp add: should_scrape_def utcnow_def utc_datetime_def datetime_sub_def)

theorem should_scrape_naive_raises_witness:
  "fromisoformat example_env ''2024-01-01T00:00:00''
     = Some \<lparr>wall = 1704067200000000, utcoffset = None\<rparr>
   \<and> fst (should_scrape example_env (Some ''XX'') [''XX'' \<mapsto> ''2024-01-01T00:00:00''] first_run)
       = Inl TypeError"
  using should_scrape_naive_raises [of "''XX''" "[''XX'' \<mapsto> ''2024-01-01T00:00:00'']"
      "''2024-01-01T00:00:00''" example_env "\<lparr>wall = 1704067200000000, utcoffset = None\<rparr>" first_run]
  by (simp add: example_env_sel example_fromisoformat_def)

text \<open>
  The five steps as the specification words them do not describe \<open>should_scrape\<close> on
  every input: for the empty string as identity code, with a ledger entry under the empty
  string that is one second old, the steps say "do not scrape" (the code is not absent and
  its entry is fresh), while \<open>should_scrape\<close> answers "scrape", with the reason of step 1.
\<close>

theorem should_scrape_as_stated_counterexample:
  "fst (should_scrape example_env (Some []) [[] \<mapsto> ''2024-01-01T00:00:00+00:00''] first_run)
     = Inr (True, ''No iso2 code; defaulting to scrape.'')
   \<and> five_steps example_env (clock example_env (ticks first_run)) (Some [])
        [[] \<mapsto> ''2024-01-01T00:00:00+00:00'']
     = (False, ScrapedRecently \<lparr>wall = 1704067200000000, utcoffset = Some 0\<rparr>)"
  by (simp add: should_scrape_def five_steps_def example_env_sel example_fromisoformat_def
      first_run_def utc_instant_def)

lemma truthy_None: "truthy x = None \<longleftrightarrow> x = None \<or> x = Some []"
  by (simp add: truthy_def split: option.splits)

lemma truthy_Some: "truthy x = Some s \<longleftrightarrow> x = Some s \<and> s \<noteq> []"
  by (auto simp add: truthy_def split: option.splits)

lemma example_steps_fresh:
  "apsnd (reason_text example_env)
     (five_steps example_env (clock example_env (ticks first_run)) (truthy (Some ''XX''))
        (\<lambda>k. truthy ([''XX'' \<mapsto> ''2024-01-01T00:00:00+00:00''] k)))
   = (False, ''Scraped recently at 2024-01-01T00:00:00+00:00.'')"
  by code_simp

text \<open>
  Claim C1, amended. \<open>should_scrape\<close> follows the five steps in their order once
  "absent" is read as Python's truth test reads it (an identity code that is \<open>None\<close> or
  the empty string is absent, and so is a ledger entry that is missing or the empty
  string), and provided that a stored timestamp that parses is timezone-aware. The
  current time is the clock reading at the call, the window is four weeks, and the
  comparison is strict. In particular the answer for the identity code \<open>None\<close> is
  "scrape" for every ledger.
\<close>

theorem should_scrape_decision_order:
  assumes aware: "\<And>code last_str last_dt.
             truthy iso2 = Some code \<Longrightarrow> truthy (freshness code) = Some last_str \<Longrightarrow>
             fromisoformat e last_str = Some last_dt \<Longrightarrow> utcoffset last_dt \<noteq> None"
  shows "fst (should_scrape e iso2 freshness st)
           = Inr (apsnd (reason_text e)
                   (five_steps e (clock e (ticks st)) (truthy iso2) (\<lambda>k. truthy (freshness k))))
         \<and> fst (should_scrape e None freshness st) = Inr (True, reason_text e NoIdentityCode)"
proof
  show "fst (should_scrape e None freshness st) = Inr (True, reason_text e NoIdentityCode)"
    by (simp add: should_scrape_def reason_text_def)
next
  show "fst (should_scrape e iso2 freshness st)
          = Inr (apsnd (reason_text e)
                  (five_steps e (clock e (ticks st)) (truthy iso2) (\<lambda>k. truthy (freshness k))))"
  proof (cases "truthy iso2")
    case None
    then have "iso2 = None \<or> iso2 = Some []"
      by (simp add: truthy_None)
    then show ?thesis
      by (auto simp add: should_scrape_def five_steps_def reason_text_def truthy_def)
  next
    case code: (Some code)
    then have iso2: "iso2 = Some code" "code \<noteq> []"
      by (simp_all add: truthy_Some)
    show ?thesis
    proof (cases "truthy (freshness code)")
      case None
      then have "freshness code = None \<or> freshness code = Some []"
        by (simp add: truthy_None)
      then show ?thesis
        using iso2
        by (auto simp add: should_scrape_def five_steps_def reason_text_def truthy_def)
    next
      case entry: (Some last_str)
      then have last: "freshness code = Some last_str" "last_str \<noteq> []"
        by (simp_all add: truthy_Some)
      show ?thesis
      proof (cases "fromisoformat e last_str")
        case None
        then show ?thesis
          using iso2 last
          by (simp add: should_scrape_def five_steps_def reason_text_def truthy_def)
      next
        case (Some last_dt)
        with aware [OF code entry] obtain off where off: "utcoffset last_dt = Some off"
          by blast
        show ?thesis
          using iso2 last Some off
          by (simp add: should_scrape_def five_steps_def reason_text_def truthy_def utcnow_def
              utc_datetime_def datetime_sub_def utc_instant_def timedelta_weeks_def
              FRESHNESS_WEEKS_def)
      qed
    qed
  qed
qed

theorem should_scrape_decision_order_witness:
  "fst (should_scrape example_env (Some ''XX'') [''XX'' \<mapsto> ''2024-01-01T00:00:00+00:00''] first_run)
     = Inr (False, ''Scraped recently at 2024-01-01T00:00:00+00:00.'')"
proof -
  have aware: "utcoffset last_dt \<noteq> None"
    if "truthy ([''XX'' \<mapsto> ''2024-01-01T00:00:00+00:00''] code) = Some last_str"
      and "fromisoformat example_env last_str = Some last_dt"
    for code last_str last_dt
    using that
    by (auto simp add: example_env_sel example_fromisoformat_def truthy_def split: if_splits)
  have "fst (should_scrape example_env (Some ''XX'')
               [''XX'' \<mapsto> ''2024-01-01T00:00:00+00:00''] first_run)
          = Inr (apsnd (reason_text example_env)
                  (five_steps example_env (clock example_env (ticks first_run))
                     (truthy (Some ''XX''))
                     (\<lambda>k. truthy ([''XX'' \<mapsto> ''2024-01-01T00:00:00+00:00''] k))))"
    using should_scrape_decision_order [of "Some ''XX''"
        "[''XX'' \<mapsto> ''2024-01-01T00:00:00+00:00'']" example_env first_run] aware
    by blast
  then show ?thesis
    by (simp only: example_steps_fresh)
qed

section \<open>The pagination walk\<close>

lemma walk_stop:
  "walk e coll i2 i3 cn None acc st = Some (None, acc, st)"
  "walk e coll i2 i3 cn (Some []) acc st = Some (None, acc, st)"
  by (simp_all add: walk.simps)

lemma walk_fail:
  assumes "path \<noteq> []" and "http_get e (BASE_URL @ path) = Inl err"
  shows "walk e coll i2 i3 cn (Some path) acc st
           = Some (Some err, acc, st\<lparr>requested := requested st @ [BASE_URL @ path]\<rparr>)"
  using assms by (subst walk.simps) (simp add: parse_country_page_def fetch_html_def)

lemma walk_page_no_store:
  assumes "path \<noteq> []" and "http_get e (BASE_URL @ path) = Inr sp"
  shows "walk e None i2 i3 cn (Some path) acc st
           = walk e None i2 i3 cn (page_next sp)
               (acc @ map (decorate i2 i3 cn path) (page_rows sp))
               (st\<lparr>requested := requested st @ [BASE_URL @ path]\<rparr>)"
  using assms by (subst walk.simps) (simp add: parse_country_page_def fetch_html_def)

lemma walk_page_store:
  assumes "path \<noteq> []" and "http_get e (BASE_URL @ path) = Inr sp"
  shows "walk e (Some c) i2 i3 cn (Some path) acc st
           = (case save_documents_mongo e c (map (decorate i2 i3 cn path) (page_rows sp))
                     (st\<lparr>requested := requested st @ [BASE_URL @ path]\<rparr>) of
                (caught, docs, st2) \<Rightarrow>
                  walk e (Some c) i2 i3 cn (page_next sp) (acc @ docs) st2)"
  using assms
  by (subst walk.simps) (simp add: parse_country_page_def fetch_html_def split: prod.splits)


lemma save_documents_mongo_docs:
  "fst (snd (save_documents_mongo e c docs st))
     = map (stamp (utc_datetime (clock e (ticks st)))) docs"
  by (simp add: save_documents_mongo_def utcnow_def Let_def split: option.splits)

lemma save_documents_mongo_frame:
  "freshness_file (snd (snd (save_documents_mongo e c docs st))) = freshness_file st"
  "data_file (snd (snd (save_documents_mongo e c docs st))) = data_file st"
  by (simp_all add: save_documents_mongo_def utcnow_def Let_def split: option.splits)

lemma stamp_fields:
  "createdAt (stamp now d) = (case createdAt d of None \<Rightarrow> Some now | Some t \<Rightarrow> Some t)"
  "updatedAt (stamp now d) = Some now"
  by (simp_all add: stamp_def)

lemmas walk_induct = walk.raw_induct [rotated 1, consumes 1, case_names step]

lemma walk_new_docs:
  assumes "walk e coll i2 i3 cn cp acc st = Some y"
  shows "\<exists>new. fst (snd y) = acc @ new
           \<and> (\<forall>d\<in>set new. if coll = None then createdAt d = None \<and> updatedAt d = None
                            else createdAt d \<noteq> None \<and> updatedAt d \<noteq> None)"
  using assms
proof (induct rule: walk_induct)
  case (step walk e coll i2 i3 cn cp acc st y)
  note 1 = step
  show ?case
  proof (cases cp)
    case None
    with 1(2) show ?thesis by auto
  next
    case (Some path)
    show ?thesis
    proof (cases "path = []")
      case True
      with 1(2) Some show ?thesis by auto
    next
      case False
      show ?thesis
      proof (cases "http_get e (BASE_URL @ path)")
        case (Inl err)
        with 1(2) Some False show ?thesis
          by (auto simp add: parse_country_page_def fetch_html_def)
      next
        case (Inr sp)
        show ?thesis
        proof (cases coll)
          case None
          with 1(2) Some False Inr
          have "walk e None i2 i3 cn (page_next sp)
                  (acc @ map (decorate i2 i3 cn path) (page_rows sp))
                  (st\<lparr>requested := requested st @ [BASE_URL @ path]\<rparr>) = Some y"
            by (simp add: parse_country_page_def fetch_html_def)
          from 1(1) [OF this] obtain new where
            new: "fst (snd y) = (acc @ map (decorate i2 i3 cn path) (page_rows sp)) @ new"
              "\<forall>d\<in>set new. createdAt d = None \<and> updatedAt d = None"
            by auto
          show ?thesis
            using new \<open>coll = None\<close>
            by (intro exI [of _ "map (decorate i2 i3 cn path) (page_rows sp) @ new"])
              (auto simp add: decorate_def)
        next
          case (Some c)
          obtain caught docs st2 where s: "save_documents_mongo e c
                (map (decorate i2 i3 cn path) (page_rows sp))
                (st\<lparr>requested := requested st @ [BASE_URL @ path]\<rparr>) = (caught, docs, st2)"
            by (cases "save_documents_mongo e c
                (map (decorate i2 i3 cn path) (page_rows sp))
                (st\<lparr>requested := requested st @ [BASE_URL @ path]\<rparr>)") auto
          have docs: "docs = map (stamp (utc_datetime (clock e
                   (ticks (st\<lparr>requested := requested st @ [BASE_URL @ path]\<rparr>)))))
                   (map (decorate i2 i3 cn path) (page_rows sp))"
            using save_documents_mongo_docs [of e c "map (decorate i2 i3 cn path) (page_rows sp)"
                "st\<lparr>requested := requested st @ [BASE_URL @ path]\<rparr>"] s by simp
          from 1(2) \<open>cp = Some path\<close> False Inr Some s
          have "walk e (Some c) i2 i3 cn (page_next sp) (acc @ docs) st2 = Some y"
            by (simp add: parse_country_page_def fetch_html_def)
          from 1(1) [OF this] obtain new where
            new: "fst (snd y) = (acc @ docs) @ new"
              "\<forall>d\<in>set new. createdAt d \<noteq> None \<and> updatedAt d \<noteq> None"
            by auto
          show ?thesis
            using new \<open>coll = Some c\<close> docs
            by (intro exI [of _ "docs @ new"])
              (auto simp add: stamp_fields split: option.splits)
        qed
      qed
    qed
  qed
qed


lemma walk_files:
  assumes "walk e coll i2 i3 cn cp acc st = Some y"
  shows "freshness_file (snd (snd y)) = freshness_file st
         \<and> data_file (snd (snd y)) = data_file st"
  using assms
proof (induct rule: walk_induct)
  case (step walk e coll i2 i3 cn cp acc st y)
  show ?case
  proof (cases cp)
    case None
    with step(2) show ?thesis by auto
  next
    case (Some path)
    show ?thesis
    proof (cases "path = []")
      case True
      with step(2) Some show ?thesis by auto
    next
      case False
      show ?thesis
      proof (cases "http_get e (BASE_URL @ path)")
        case (Inl err)
        with step(2) Some False show ?thesis
          by (auto simp add: parse_country_page_def fetch_html_def)
      next
        case (Inr sp)
        show ?thesis
        proof (cases coll)
          case None
          with step(2) Some False Inr
          have "walk e None i2 i3 cn (page_next sp)
                  (acc @ map (decorate i2 i3 cn path) (page_rows sp))
                  (st\<lparr>requested := requested st @ [BASE_URL @ path]\<rparr>) = Some y"
            by (simp add: parse_country_page_def fetch_html_def)
          from step(1) [OF this] show ?thesis
            by simp
        next
          case (Some c)
          obtain caught docs st2 where s: "save_documents_mongo e c
                (map (decorate i2 i3 cn path) (page_rows sp))
                (st\<lparr>requested := requested st @ [BASE_URL @ path]\<rparr>) = (caught, docs, st2)"
            by (cases "save_documents_mongo e c
                (map (decorate i2 i3 cn path) (page_rows sp))
                (st\<lparr>requested := requested st @ [BASE_URL @ path]\<rparr>)") auto
          have st2: "freshness_file st2 = freshness_file st" "data_file st2 = data_file st"
            using save_documents_mongo_frame [of e c "map (decorate i2 i3 cn path) (page_rows sp)"
                "st\<lparr>requested := requested st @ [BASE_URL @ path]\<rparr>"] s by simp_all
          from step(2) \<open>cp = Some path\<close> False Inr Some s
          have "walk e (Some c) i2 i3 cn (page_next sp) (acc @ docs) st2 = Some y"
            by (simp add: parse_country_page_def fetch_html_def)
          from step(1) [OF this] st2 show ?thesis
            by simp
        qed
      qed
    qed
  qed
qed

section \<open>One partition and the loop over the partitions\<close>

lemma lookup_iso_frame:
  "freshness_file (snd (lookup_iso e nm st)) = freshness_file st"
  "data_file (snd (lookup_iso e nm st)) = data_file st"
  by (simp_all add: lookup_iso_def)

lemma lookup_iso_any_world: "fst (lookup_iso e nm st) = fst (lookup_iso e nm w)"
  by (simp add: lookup_iso_def)

lemma should_scrape_frame:
  "freshness_file (snd (should_scrape e i2 F st)) = freshness_file st"
  "data_file (snd (should_scrape e i2 F st)) = data_file st"
  by (simp_all add: should_scrape_def utcnow_def split: option.splits sum.splits)

text \<open>What one call of \<open>scrape_country\<close> may change.\<close>

lemma scrape_country_inv:
  assumes run: "scrape_country e href label coll (Some F) (Some acc) st = Some (r, F', acc', st')"
  shows "(\<exists>new. acc' = acc @ new
            \<and> (\<forall>d\<in>set new. if coll = None then createdAt d = None \<and> updatedAt d = None
                             else createdAt d \<noteq> None \<and> updatedAt d \<noteq> None))
         \<and> freshness_file st' = freshness_file st \<and> data_file st' = data_file st
         \<and> (F' = F \<or> (\<exists>code ts. fst (fst (lookup_iso e (country_name_of href label) st)) = Some code
                              \<and> F' = F(code \<mapsto> ts)))"
proof -
  obtain i2 i3 nm st1 where l: "lookup_iso e (country_name_of href label) st = ((i2, i3, nm), st1)"
    by (metis prod_cases3 surj_pair)
  obtain d st2 where s: "should_scrape e i2 F st1 = (d, st2)"
    by (cases "should_scrape e i2 F st1") auto
  have st1: "freshness_file st1 = freshness_file st" "data_file st1 = data_file st"
    using lookup_iso_frame [of e "country_name_of href label" st] l by simp_all
  have st2: "freshness_file st2 = freshness_file st" "data_file st2 = data_file st"
    using should_scrape_frame [of e i2 F st1] s st1 by simp_all
  show ?thesis
  proof (cases d)
    case (Inl err)
    with run l s st2 show ?thesis
      by (simp add: scrape_country_def)
  next
    case (Inr p)
    obtain ok reason where p: "p = (ok, reason)"
      by (cases p) auto
    show ?thesis
    proof (cases ok)
      case False
      with run l s st2 Inr p show ?thesis
        by (simp add: scrape_country_def)
    next
      case True
      show ?thesis
      proof (cases "walk e coll i2 i3 (country_name_of href label) (Some href) acc st2")
        case None
        with run l s Inr p True show ?thesis
          by (simp add: scrape_country_def)
      next
        case (Some y)
        obtain wr docs st3 where y: "y = (wr, docs, st3)"
          by (cases y) auto
        from walk_new_docs [OF Some] y obtain new where
          new: "docs = acc @ new"
            "\<forall>d\<in>set new. if coll = None then createdAt d = None \<and> updatedAt d = None
                           else createdAt d \<noteq> None \<and> updatedAt d \<noteq> None"
          by auto
        from walk_files [OF Some] y st2
        have st3: "freshness_file st3 = freshness_file st" "data_file st3 = data_file st"
          by simp_all
        from run l s Inr p True Some y
        have "(r, F', acc', st') = (wr, F, docs, st3)
              \<or> (\<exists>code. i2 = Some code \<and> (r, F', acc', st')
                    = (None, F(code \<mapsto> isoformat e (utc_datetime (clock e (ticks st3)))), docs,
                       st3\<lparr>ticks := Suc (ticks st3)\<rparr>))"
          by (auto simp add: scrape_country_def utcnow_def split: option.splits if_splits)
        then show ?thesis
          using new st3 l by auto
      qed
    qed
  qed
qed

lemma main_loop_inv:
  assumes "main_loop e coll links F acc st = Some (F', acc', st')"
  shows "(\<exists>new. acc' = acc @ new
            \<and> (\<forall>d\<in>set new. if coll = None then createdAt d = None \<and> updatedAt d = None
                             else createdAt d \<noteq> None \<and> updatedAt d \<noteq> None))
         \<and> freshness_file st' = freshness_file st \<and> data_file st' = data_file st
         \<and> dom F \<subseteq> dom F'
         \<and> (\<forall>k. (\<forall>link\<in>set links. \<forall>w.
                    fst (fst (lookup_iso e (country_name_of (fst link) (snd link)) w)) \<noteq> Some k)
                \<longrightarrow> F' k = F k)"
  using assms
proof (induction links arbitrary: F acc st)
  case Nil
  then show ?case by simp
next
  case (Cons link rest)
  obtain href label where link: "link = (href, label)"
    by (cases link) auto
  from Cons.prems link obtain r F1 acc1 st1 where
    one: "scrape_country e href label coll (Some F) (Some acc) st = Some (r, F1, acc1, st1)"
    and more: "main_loop e coll rest F1 acc1 st1 = Some (F', acc', st')"
    by (auto split: option.splits)
  from scrape_country_inv [OF one] obtain new1 where
    a1: "acc1 = acc @ new1"
      "\<forall>d\<in>set new1. if coll = None then createdAt d = None \<and> updatedAt d = None
                      else createdAt d \<noteq> None \<and> updatedAt d \<noteq> None"
    and f1: "freshness_file st1 = freshness_file st" "data_file st1 = data_file st"
    and l1: "F1 = F \<or> (\<exists>code ts.
               fst (fst (lookup_iso e (country_name_of href label) st)) = Some code
               \<and> F1 = F(code \<mapsto> ts))"
    by auto
  from Cons.IH [OF more] obtain new2 where
    a2: "acc' = acc1 @ new2"
      "\<forall>d\<in>set new2. if coll = None then createdAt d = None \<and> updatedAt d = None
                      else createdAt d \<noteq> None \<and> updatedAt d \<noteq> None"
    and f2: "freshness_file st' = freshness_file st1" "data_file st' = data_file st1"
    and d2: "dom F1 \<subseteq> dom F'"
    and l2: "\<forall>k. (\<forall>link\<in>set rest. \<forall>w.
                    fst (fst (lookup_iso e (country_name_of (fst link) (snd link)) w)) \<noteq> Some k)
                \<longrightarrow> F' k = F1 k"
    by auto
  have docs: "\<exists>new. acc' = acc @ new
            \<and> (\<forall>d\<in>set new. if coll = None then createdAt d = None \<and> updatedAt d = None
                             else createdAt d \<noteq> None \<and> updatedAt d \<noteq> None)"
    using a1 a2 by (intro exI [of _ "new1 @ new2"]) auto
  have "dom F \<subseteq> dom F1"
    using l1 by auto
  with d2 have dom: "dom F \<subseteq> dom F'"
    by blast
  have frame: "F' k = F k"
    if k: "\<forall>link\<in>set (link # rest). \<forall>w.
             fst (fst (lookup_iso e (country_name_of (fst link) (snd link)) w)) \<noteq> Some k"
    for k
  proof -
    from k have "F' k = F1 k"
      using l2 by simp
    moreover from k link have "fst (fst (lookup_iso e (country_name_of href label) st)) \<noteq> Some k"
      by simp
    with l1 have "F1 k = F k"
      by auto
    ultimately show ?thesis
      by simp
  qed
  show ?case
    using docs dom frame f1 f2 by simp
qed

text \<open>When, and only when, one call of \<open>scrape_country\<close> and the loop write to the ledger.\<close>

lemma scrape_country_skip:
  assumes "lookup_iso e (country_name_of href label) st = ((i2, i3, nm), st1)"
    and "should_scrape e i2 F st1 = (Inr (False, reason), st2)"
  shows "scrape_country e href label coll (Some F) (Some acc) st = Some (None, F, acc, st2)"
  using assms by (simp add: scrape_country_def Let_def)

lemma scrape_country_failed:
  assumes "scrape_country e href label coll (Some F) (Some acc) st = Some (Some err, F', acc', st')"
  shows "F' = F"
  using assms
  by (auto simp add: scrape_country_def Let_def utcnow_def
      split: prod.splits sum.splits if_splits option.splits)

lemma scrape_country_writes:
  assumes run: "scrape_country e href label coll (Some F) (Some acc) st = Some (r, F', acc', st')"
    and k: "F' k \<noteq> F k"
  shows "r = None
         \<and> fst (fst (lookup_iso e (country_name_of href label) st)) = Some k
         \<and> (\<exists>reason. fst (should_scrape e (Some k) F
                               (snd (lookup_iso e (country_name_of href label) st)))
                        = Inr (True, reason))"
proof -
  obtain i2 i3 nm st1 where l: "lookup_iso e (country_name_of href label) st = ((i2, i3, nm), st1)"
    by (metis prod_cases3 surj_pair)
  obtain d st2 where s: "should_scrape e i2 F st1 = (d, st2)"
    by (cases "should_scrape e i2 F st1") auto
  show ?thesis
  proof (cases d)
    case (Inl err)
    with run l s k show ?thesis
      by (simp add: scrape_country_def)
  next
    case (Inr p)
    obtain ok reason where p: "p = (ok, reason)"
      by (cases p) auto
    show ?thesis
    proof (cases ok)
      case False
      with run l s k Inr p show ?thesis
        by (simp add: scrape_country_def)
    next
      case True
      show ?thesis
      proof (cases "walk e coll i2 i3 (country_name_of href label) (Some href) acc st2")
        case None
        with run l s Inr p True show ?thesis
          by (simp add: scrape_country_def)
      next
        case (Some y)
        obtain wr docs st3 where y: "y = (wr, docs, st3)"
          by (cases y) auto
        from run l s Inr p True Some y
        have "(r, F', acc', st') = (wr, F, docs, st3)
              \<or> (\<exists>code. i2 = Some code \<and> (r, F', acc', st')
                    = (None, F(code \<mapsto> isoformat e (utc_datetime (clock e (ticks st3)))), docs,
                       st3\<lparr>ticks := Suc (ticks st3)\<rparr>))"
          by (auto simp add: scrape_country_def utcnow_def split: option.splits if_splits)
        with k have "r = None \<and> i2 = Some k"
          by (auto split: if_splits)
        then show ?thesis
          using l s Inr p True by auto
      qed
    qed
  qed
qed

lemma main_loop_writes:
  assumes "main_loop e coll links F acc st = Some (F', acc', st')" and "F' k \<noteq> F k"
  shows "\<exists>pre href label post Fi acci sti.
           links = pre @ (href, label) # post
           \<and> main_loop e coll pre F acc st = Some (Fi, acci, sti)
           \<and> fst (fst (lookup_iso e (country_name_of href label) sti)) = Some k
           \<and> (\<exists>reason. fst (should_scrape e (Some k) Fi
                                 (snd (lookup_iso e (country_name_of href label) sti)))
                          = Inr (True, reason))
           \<and> (\<exists>y. scrape_country e href label coll (Some Fi) (Some acci) sti = Some (None, y))"
  using assms
proof (induction links arbitrary: F acc st)
  case Nil
  then show ?case by simp
next
  case (Cons link rest)
  obtain href label where link: "link = (href, label)"
    by (cases link) auto
  from Cons.prems(1) link obtain r F1 acc1 st1 where
    one: "scrape_country e href label coll (Some F) (Some acc) st = Some (r, F1, acc1, st1)"
    and more: "main_loop e coll rest F1 acc1 st1 = Some (F', acc', st')"
    by (auto split: option.splits)
  show ?case
  proof (cases "F1 k = F k")
    case False
    from scrape_country_writes [OF one False]
    have "r = None"
      and "fst (fst (lookup_iso e (country_name_of href label) st)) = Some k"
      and "\<exists>reason. fst (should_scrape e (Some k) F
                               (snd (lookup_iso e (country_name_of href label) st)))
                        = Inr (True, reason)"
      by simp_all
    then show ?thesis
      using one link
      by (intro exI [of _ "[]"] exI [of _ href] exI [of _ label] exI [of _ rest]
          exI [of _ F] exI [of _ acc] exI [of _ st]) simp
  next
    case True
    with Cons.prems(2) have "F' k \<noteq> F1 k"
      by simp
    from Cons.IH [OF more this] obtain pre h l post Fi acci sti where
      parts: "rest = pre @ (h, l) # post"
      and before: "main_loop e coll pre F1 acc1 st1 = Some (Fi, acci, sti)"
      and resolved: "fst (fst (lookup_iso e (country_name_of h l) sti)) = Some k"
      and due: "\<exists>reason. fst (should_scrape e (Some k) Fi
                                 (snd (lookup_iso e (country_name_of h l) sti)))
                          = Inr (True, reason)"
      and finished: "\<exists>y. scrape_country e h l coll (Some Fi) (Some acci) sti = Some (None, y)"
      by blast
    have "main_loop e coll (link # pre) F acc st = Some (Fi, acci, sti)"
      using link one before by simp
    then show ?thesis
      using parts resolved due finished
      by (intro exI [of _ "link # pre"] exI [of _ h] exI [of _ l] exI [of _ post]
          exI [of _ Fi] exI [of _ acci] exI [of _ sti]) simp
  qed
qed

lemma main_collect_loop:
  assumes "main_collect e st = Some (Inr (F, docs), st1)"
  shows "\<exists>links st0. get_country_links e st = (Inr links, st0)
           \<and> freshness_file st0 = freshness_file st \<and> data_file st0 = data_file st
           \<and> main_loop e (case mongo_connect e of Inl err \<Rightarrow> None | Inr c \<Rightarrow> Some c)
                 links (load_freshness st) [] st0 = Some (F, docs, st1)"
  using assms
  by (auto simp add: main_collect_def get_country_links_def fetch_html_def
      get_mongo_collection_def Let_def split: sum.splits option.splits)

section \<open>Two example runs\<close>

lemma example_later_collect:
  "main_collect example_env later_run
     = Some (Inr ([''YY'' \<mapsto> ''2023-01-01T00:00:00+00:00'',
                   ''XX'' \<mapsto> ''2024-01-01T00:00:01+00:00''],
                  [\<lparr>name = ''Bank A'', swift_code = ''AAAABBCC'', city = ''Town'', branch = ''HQ'',
                    iso_code = Some ''XX'', iso3 = Some ''XXX'', country = ''x'',
                    page = ''/x_swift_codes.html'', createdAt = None, updatedAt = None\<rparr>]),
             \<lparr>freshness_file = Some [''YY'' \<mapsto> ''2023-01-01T00:00:00+00:00''],
              data_file = None,
              requested = [''https://www.theswiftcodes.com/browse-by-country/'',
                           ''https://www.theswiftcodes.com/x_swift_codes.html''],
              lookups = [''x''], stored = [], ticks = 1\<rparr>)"
  by (simp add: main_collect_def load_freshness_def get_country_links_def fetch_html_def
      BROWSE_URL_def BASE_URL_def example_env_sel example_http_def example_directory_def
      example_page_def later_run_def first_run_def
      get_mongo_collection_def scrape_country_def example_country_name lookup_iso_def
      lookup_iso_try_def should_scrape_def walk.simps parse_country_page_def page_rows_def
      page_next_def decorate_def utcnow_def utc_datetime_def example_isoformat_1s Let_def)

lemma example_fresh_collect:
  "main_collect example_env fresh_run
     = Some (Inr ([''XX'' \<mapsto> ''2024-01-01T00:00:00+00:00''], []),
             \<lparr>freshness_file = Some [''XX'' \<mapsto> ''2024-01-01T00:00:00+00:00''],
              data_file = None,
              requested = [''https://www.theswiftcodes.com/browse-by-country/''],
              lookups = [''x''], stored = [], ticks = 1\<rparr>)"
  by (simp add: main_collect_def load_freshness_def get_country_links_def fetch_html_def
      BROWSE_URL_def BASE_URL_def example_env_sel example_http_def example_directory_def
      fresh_run_def first_run_def
      get_mongo_collection_def scrape_country_def example_country_name lookup_iso_def
      lookup_iso_try_def should_scrape_def example_fromisoformat_def
      utcnow_def utc_datetime_def datetime_sub_def timedelta_weeks_def FRESHNESS_WEEKS_def
      Let_def)

lemma example_store_collect:
  "main_collect example_env_store first_run
     = Some (Inr ([''XX'' \<mapsto> ''2024-01-01T00:00:02+00:00''],
                  [\<lparr>name = ''Bank A'', swift_code = ''AAAABBCC'', city = ''Town'', branch = ''HQ'',
                    iso_code = Some ''XX'', iso3 = Some ''XXX'', country = ''x'',
                    page = ''/x_swift_codes.html'',
                    createdAt = Some \<lparr>wall = 1704067201000000, utcoffset = Some 0\<rparr>,
                    updatedAt = Some \<lparr>wall = 1704067201000000, utcoffset = Some 0\<rparr>\<rparr>]),
             \<lparr>freshness_file = None, data_file = None,
              requested = [''https://www.theswiftcodes.com/browse-by-country/'',
                           ''https://www.theswiftcodes.com/x_swift_codes.html''],
              lookups = [''x''],
              stored = [\<lparr>name = ''Bank A'', swift_code = ''AAAABBCC'', city = ''Town'',
                    branch = ''HQ'',
                    iso_code = Some ''XX'', iso3 = Some ''XXX'', country = ''x'',
                    page = ''/x_swift_codes.html'',
                    createdAt = Some \<lparr>wall = 1704067201000000, utcoffset = Some 0\<rparr>,
                    updatedAt = Some \<lparr>wall = 1704067201000000, utcoffset = Some 0\<rparr>\<rparr>],
              ticks = 2\<rparr>)"
  by (simp add: main_collect_def load_freshness_def get_country_links_def fetch_html_def
      BROWSE_URL_def BASE_URL_def example_env_store_sel example_http_def example_directory_def
      example_page_def first_run_def
      get_mongo_collection_def scrape_country_def example_country_name lookup_iso_def
      lookup_iso_try_def should_scrape_def walk.simps parse_country_page_def page_rows_def
      page_next_def decorate_def utcnow_def utc_datetime_def example_isoformat_2s
      save_documents_mongo_def stamp_def Let_def)

section \<open>Timestamps of the document store\<close>

text \<open>
  Claim C10. The store writer returns the documents it was given with \<open>createdAt\<close> set to
  the current time where it was absent and \<open>updatedAt\<close> set to the current time, whether
  or not the insert succeeds; the loop appends exactly these documents to the accumulator.
  So, for every run that reaches step 5 of \<open>main\<close>: when the store answered the ping,
  every accumulated document has both fields; when it did not, no accumulated document
  has either. The accumulator, when it is not empty, is what \<open>main\<close> writes to the data
  file.
\<close>

theorem store_timestamps_reach_file:
  assumes "main_collect e st = Some (Inr (F, docs), st1)"
  shows "(\<forall>d\<in>set docs. case mongo_connect e of
             Inr c \<Rightarrow> createdAt d \<noteq> None \<and> updatedAt d \<noteq> None
           | Inl err \<Rightarrow> createdAt d = None \<and> updatedAt d = None)
         \<and> main e st = Some (None, finish F docs st1)
         \<and> (docs \<noteq> [] \<longrightarrow> data_file (finish F docs st1) = Some docs)
         \<and> fst (snd (save_documents_mongo e c batch w))
             = map (stamp (utc_datetime (clock e (ticks w)))) batch
         \<and> createdAt (stamp now d0) = (case createdAt d0 of None \<Rightarrow> Some now | Some t \<Rightarrow> Some t)
         \<and> updatedAt (stamp now d0) = Some now
         \<and> (path \<noteq> [] \<and> http_get e (BASE_URL @ path) = Inr sp \<longrightarrow>
              walk e (Some c) i2 i3 cn (Some path) acc w
                = walk e (Some c) i2 i3 cn (page_next sp)
                    (acc @ map (stamp (utc_datetime (clock e (ticks w))))
                             (map (decorate i2 i3 cn path) (page_rows sp)))
                    (snd (snd (save_documents_mongo e c
                                 (map (decorate i2 i3 cn path) (page_rows sp))
                                 (w\<lparr>requested := requested w @ [BASE_URL @ path]\<rparr>)))))"
proof -
  from main_collect_loop [OF assms] obtain links st0 where
    loop: "main_loop e (case mongo_connect e of Inl err \<Rightarrow> None | Inr c \<Rightarrow> Some c)
             links (load_freshness st) [] st0 = Some (F, docs, st1)"
    by blast
  from main_loop_inv [OF loop]
  have "\<forall>d\<in>set docs.
          if (case mongo_connect e of Inl err \<Rightarrow> None | Inr c \<Rightarrow> Some c) = None
          then createdAt d = None \<and> updatedAt d = None
          else createdAt d \<noteq> None \<and> updatedAt d \<noteq> None"
    by auto
  then have stamps: "\<forall>d\<in>set docs. case mongo_connect e of
             Inr c \<Rightarrow> createdAt d \<noteq> None \<and> updatedAt d \<noteq> None
           | Inl err \<Rightarrow> createdAt d = None \<and> updatedAt d = None"
    by (cases "mongo_connect e") auto
  have run: "main e st = Some (None, finish F docs st1)"
    using assms by (simp add: main_def)
  have written: "docs \<noteq> [] \<longrightarrow> data_file (finish F docs st1) = Some docs"
    by (simp add: finish_def save_freshness_def)
  have step: "walk e (Some c) i2 i3 cn (Some path) acc w
                = walk e (Some c) i2 i3 cn (page_next sp)
                    (acc @ map (stamp (utc_datetime (clock e (ticks w))))
                             (map (decorate i2 i3 cn path) (page_rows sp)))
                    (snd (snd (save_documents_mongo e c
                                 (map (decorate i2 i3 cn path) (page_rows sp))
                                 (w\<lparr>requested := requested w @ [BASE_URL @ path]\<rparr>))))"
    if "path \<noteq> []" and "http_get e (BASE_URL @ path) = Inr sp"
    using walk_page_store [OF that, of c i2 i3 cn acc w]
      save_documents_mongo_docs [of e c "map (decorate i2 i3 cn path) (page_rows sp)"
        "w\<lparr>requested := requested w @ [BASE_URL @ path]\<rparr>"]
    by (simp split: prod.splits)
  show ?thesis
    using stamps run written step save_documents_mongo_docs [of e c batch w] stamp_fields [of now d0]
    by simp
qed

theorem store_timestamps_reach_file_witness:
  "main example_env_store first_run
     = Some (None,
         \<lparr>freshness_file = Some [''XX'' \<mapsto> ''2024-01-01T00:00:02+00:00''],
          data_file = Some [\<lparr>name = ''Bank A'', swift_code = ''AAAABBCC'', city = ''Town'',
                    branch = ''HQ'', iso_code = Some ''XX'', iso3 = Some ''XXX'', country = ''x'',
                    page = ''/x_swift_codes.html'',
                    createdAt = Some \<lparr>wall = 1704067201000000, utcoffset = Some 0\<rparr>,
                    updatedAt = Some \<lparr>wall = 1704067201000000, utcoffset = Some 0\<rparr>\<rparr>],
          requested = [''https://www.theswiftcodes.com/browse-by-country/'',
                       ''https://www.theswiftcodes.com/x_swift_codes.html''],
          lookups = [''x''],
          stored = [\<lparr>name = ''Bank A'', swift_code = ''AAAABBCC'', city = ''Town'',
                    branch = ''HQ'', iso_code = Some ''XX'', iso3 = Some ''XXX'', country = ''x'',
                    page = ''/x_swift_codes.html'',
                    createdAt = Some \<lparr>wall = 1704067201000000, utcoffset = Some 0\<rparr>,
                    updatedAt = Some \<lparr>wall = 1704067201000000, utcoffset = Some 0\<rparr>\<rparr>],
          ticks = 2\<rparr>)
   \<and> mongo_connect example_env_store = Inr Collection"
  using store_timestamps_reach_file [OF example_store_collect]
  by (simp add: finish_def save_freshness_def example_env_store_sel)

section \<open>The end of the run\<close>

text \<open>
  Claim C6. For every run that reaches step 5 of \<open>main\<close> with the ledger \<open>F\<close> and the
  accumulator \<open>docs\<close>: \<open>main\<close> returns; the ledger file then holds the whole of \<open>F\<close>,
  whatever the accumulator is; the data file holds \<open>docs\<close> if \<open>docs\<close> is not empty and is
  otherwise what it was at the start of the run; every key of the ledger loaded at the
  start is a key of \<open>F\<close>; a key that the identity lookup gives for none of the listed
  partitions has in \<open>F\<close> the value loaded at the start; and a key whose value in \<open>F\<close> is
  not the value loaded at the start is the identity code of a listed partition that the
  loop, when it reached it, found due and scraped to its last page without an exception.
  A partition that is skipped as fresh leaves the ledger and the accumulator as they are,
  and a partition that an exception leaves, leaves the ledger as it is.
\<close>

theorem run_end_flushes_and_persists:
  assumes "main_collect e st = Some (Inr (F, docs), st1)"
  shows "main e st = Some (None, finish F docs st1)
         \<and> freshness_file (finish F docs st1) = Some F
         \<and> data_file (finish F docs st1) = (if docs = [] then data_file st else Some docs)
         \<and> dom (load_freshness st) \<subseteq> dom F
         \<and> (\<forall>links. fst (get_country_links e st) = Inr links \<longrightarrow>
              (\<forall>k. (\<forall>link\<in>set links. \<forall>w.
                       fst (fst (lookup_iso e (country_name_of (fst link) (snd link)) w)) \<noteq> Some k)
                   \<longrightarrow> F k = load_freshness st k))
         \<and> (\<forall>k. F k \<noteq> load_freshness st k \<longrightarrow>
              (\<exists>links st0 pre href label post Fi acci sti.
                 get_country_links e st = (Inr links, st0)
                 \<and> links = pre @ (href, label) # post
                 \<and> main_loop e (case mongo_connect e of Inl err \<Rightarrow> None | Inr c \<Rightarrow> Some c)
                       pre (load_freshness st) [] st0 = Some (Fi, acci, sti)
                 \<and> fst (fst (lookup_iso e (country_name_of href label) sti)) = Some k
                 \<and> (\<exists>reason. fst (should_scrape e (Some k) Fi
                                       (snd (lookup_iso e (country_name_of href label) sti)))
                                = Inr (True, reason))
                 \<and> (\<exists>y. scrape_country e href label
                            (case mongo_connect e of Inl err \<Rightarrow> None | Inr c \<Rightarrow> Some c)
                            (Some Fi) (Some acci) sti = Some (None, y))))
         \<and> (\<forall>href label coll F0 acc w i2 i3 nm w1 reason w2.
               lookup_iso e (country_name_of href label) w = ((i2, i3, nm), w1)
               \<and> should_scrape e i2 F0 w1 = (Inr (False, reason), w2)
               \<longrightarrow> scrape_country e href label coll (Some F0) (Some acc) w
                     = Some (None, F0, acc, w2))
         \<and> (\<forall>href label coll F0 acc w err F' acc' w'.
               scrape_country e href label coll (Some F0) (Some acc) w
                 = Some (Some err, F', acc', w')
               \<longrightarrow> F' = F0)"
proof -
  from main_collect_loop [OF assms] obtain links st0 where
    links: "get_country_links e st = (Inr links, st0)"
    and st0: "data_file st0 = data_file st"
    and loop: "main_loop e (case mongo_connect e of Inl err \<Rightarrow> None | Inr c \<Rightarrow> Some c)
             links (load_freshness st) [] st0 = Some (F, docs, st1)"
    by blast
  from main_loop_inv [OF loop] st0
  have st1: "data_file st1 = data_file st"
    and dom: "dom (load_freshness st) \<subseteq> dom F"
    and frame: "\<forall>k. (\<forall>link\<in>set links. \<forall>w.
                    fst (fst (lookup_iso e (country_name_of (fst link) (snd link)) w)) \<noteq> Some k)
                \<longrightarrow> F k = load_freshness st k"
    by simp_all
  have run: "main e st = Some (None, finish F docs st1)"
    using assms by (simp add: main_def)
  have files: "freshness_file (finish F docs st1) = Some F"
    "data_file (finish F docs st1) = (if docs = [] then data_file st else Some docs)"
    using st1 by (simp_all add: finish_def save_freshness_def)
  have old: "\<forall>links. fst (get_country_links e st) = Inr links \<longrightarrow>
              (\<forall>k. (\<forall>link\<in>set links. \<forall>w.
                       fst (fst (lookup_iso e (country_name_of (fst link) (snd link)) w)) \<noteq> Some k)
                   \<longrightarrow> F k = load_freshness st k)"
    using frame links by simp
  have written: "\<forall>k. F k \<noteq> load_freshness st k \<longrightarrow>
              (\<exists>links st0 pre href label post Fi acci sti.
                 get_country_links e st = (Inr links, st0)
                 \<and> links = pre @ (href, label) # post
                 \<and> main_loop e (case mongo_connect e of Inl err \<Rightarrow> None | Inr c \<Rightarrow> Some c)
                       pre (load_freshness st) [] st0 = Some (Fi, acci, sti)
                 \<and> fst (fst (lookup_iso e (country_name_of href label) sti)) = Some k
                 \<and> (\<exists>reason. fst (should_scrape e (Some k) Fi
                                       (snd (lookup_iso e (country_name_of href label) sti)))
                                = Inr (True, reason))
                 \<and> (\<exists>y. scrape_country e href label
                            (case mongo_connect e of Inl err \<Rightarrow> None | Inr c \<Rightarrow> Some c)
                            (Some Fi) (Some acci) sti = Some (None, y)))"
  proof (intro allI impI)
    fix k
    assume "F k \<noteq> load_freshness st k"
    from main_loop_writes [OF loop this] obtain pre href label post Fi acci sti where
      parts: "links = pre @ (href, label) # post"
      and before: "main_loop e (case mongo_connect e of Inl err \<Rightarrow> None | Inr c \<Rightarrow> Some c)
                     pre (load_freshness st) [] st0 = Some (Fi, acci, sti)"
      and resolved: "fst (fst (lookup_iso e (country_name_of href label) sti)) = Some k"
      and due: "\<exists>reason. fst (should_scrape e (Some k) Fi
                                 (snd (lookup_iso e (country_name_of href label) sti)))
                          = Inr (True, reason)"
      and finished: "\<exists>y. scrape_country e href label
                            (case mongo_connect e of Inl err \<Rightarrow> None | Inr c \<Rightarrow> Some c)
                            (Some Fi) (Some acci) sti = Some (None, y)"
      by blast
    show "\<exists>links st0 pre href label post Fi acci sti.
                 get_country_links e st = (Inr links, st0)
                 \<and> links = pre @ (href, label) # post
                 \<and> main_loop e (case mongo_connect e of Inl err \<Rightarrow> None | Inr c \<Rightarrow> Some c)
                       pre (load_freshness st) [] st0 = Some (Fi, acci, sti)
                 \<and> fst (fst (lookup_iso e (country_name_of href label) sti)) = Some k
                 \<and> (\<exists>reason. fst (should_scrape e (Some k) Fi
                                       (snd (lookup_iso e (country_name_of href label) sti)))
                                = Inr (True, reason))
                 \<and> (\<exists>y. scrape_country e href label
                            (case mongo_connect e of Inl err \<Rightarrow> None | Inr c \<Rightarrow> Some c)
                            (Some Fi) (Some acci) sti = Some (None, y))"
      by (rule exI [of _ links], rule exI [of _ st0], rule exI [of _ pre], rule exI [of _ href],
          rule exI [of _ label], rule exI [of _ post], rule exI [of _ Fi], rule exI [of _ acci],
          rule exI [of _ sti], intro conjI)
        (fact links, fact parts, fact before, fact resolved, fact due, fact finished)
  qed
  have skip: "\<forall>href label coll F0 acc w i2 i3 nm w1 reason w2.
               lookup_iso e (country_name_of href label) w = ((i2, i3, nm), w1)
               \<and> should_scrape e i2 F0 w1 = (Inr (False, reason), w2)
               \<longrightarrow> scrape_country e href label coll (Some F0) (Some acc) w
                     = Some (None, F0, acc, w2)"
    by (intro allI impI, elim conjE, erule (1) scrape_country_skip)
  have failed: "\<forall>href label coll F0 acc w err F' acc' w'.
               scrape_country e href label coll (Some F0) (Some acc) w
                 = Some (Some err, F', acc', w')
               \<longrightarrow> F' = F0"
    by (intro allI impI, erule scrape_country_failed)
  show ?thesis
    by (intro conjI) (fact run, fact files(1), fact files(2), fact dom, fact old, fact written,
        fact skip, fact failed)
qed

theorem run_end_flushes_and_persists_witness:
  "main example_env later_run
     = Some (None,
         \<lparr>freshness_file = Some [''YY'' \<mapsto> ''2023-01-01T00:00:00+00:00'',
                                 ''XX'' \<mapsto> ''2024-01-01T00:00:01+00:00''],
          data_file = Some [\<lparr>name = ''Bank A'', swift_code = ''AAAABBCC'', city = ''Town'',
                    branch = ''HQ'', iso_code = Some ''XX'', iso3 = Some ''XXX'', country = ''x'',
                    page = ''/x_swift_codes.html'', createdAt = None, updatedAt = None\<rparr>],
          requested = [''https://www.theswiftcodes.com/browse-by-country/'',
                       ''https://www.theswiftcodes.com/x_swift_codes.html''],
          lookups = [''x''], stored = [], ticks = 1\<rparr>)
   \<and> dom (load_freshness later_run) = {''YY''}
   \<and> main example_env fresh_run
     = Some (None,
         \<lparr>freshness_file = Some [''XX'' \<mapsto> ''2024-01-01T00:00:00+00:00''],
          data_file = None,
          requested = [''https://www.theswiftcodes.com/browse-by-country/''],
          lookups = [''x''], stored = [], ticks = 1\<rparr>)"
  using run_end_flushes_and_persists [OF example_later_collect, THEN conjunct1]
    run_end_flushes_and_persists [OF example_fresh_collect, THEN conjunct1]
  by (simp add: finish_def save_freshness_def load_freshness_def later_run_def first_run_def)

section \<open>The end-to-end scenario\<close>

lemma lookup_iso_world:
  "nm \<noteq> [] \<Longrightarrow> lookup_iso e nm w = (fst (lookup_iso e nm w0), w\<lparr>lookups := lookups w @ [nm]\<rparr>)"
  by (simp add: lookup_iso_def)

text \<open>
  The scenario as the specification states it, run in the example environment: the one
  document written to the data file has the country \<open>x\<close>, the first segment of the
  partition's reference after normalization, and not the label \<open>X\<close> of the directory
  entry.
\<close>

theorem end_to_end_as_stated_counterexample:
  "main example_env first_run
     = Some (None,
         \<lparr>freshness_file = Some [''XX'' \<mapsto> ''2024-01-01T00:00:01+00:00''],
          data_file = Some [\<lparr>name = ''Bank A'', swift_code = ''AAAABBCC'', city = ''Town'',
                    branch = ''HQ'', iso_code = Some ''XX'', iso3 = Some ''XXX'', country = ''x'',
                    page = ''/x_swift_codes.html'', createdAt = None, updatedAt = None\<rparr>],
          requested = [''https://www.theswiftcodes.com/browse-by-country/'',
                       ''https://www.theswiftcodes.com/x_swift_codes.html''],
          lookups = [''x''], stored = [], ticks = 1\<rparr>)
   \<and> map country (the (data_file (snd (the (main example_env first_run))))) \<noteq> [''X'']"
  by (simp add: main_def main_collect_def load_freshness_def get_country_links_def fetch_html_def
      BROWSE_URL_def BASE_URL_def example_env_sel example_http_def example_directory_def
      example_page_def first_run_def finish_def save_freshness_def
      get_mongo_collection_def scrape_country_def example_country_name lookup_iso_def
      lookup_iso_try_def should_scrape_def walk.simps parse_country_page_def page_rows_def
      page_next_def decorate_def utcnow_def utc_datetime_def example_isoformat_1s Let_def)

text \<open>
  Claim C5, amended. When the directory lists the single partition
  \<open>/x_swift_codes.html\<close> with the label \<open>X\<close>, its page has the one row of Bank A and no
  next page, the identity lookup of \<open>x\<close> gives the code \<open>XX\<close>, the document store does not
  answer and the ledger has no entry for \<open>XX\<close>, then \<open>main\<close> returns; the data file
  holds exactly one document, the row of Bank A with the identity code \<open>XX\<close>, the long
  code of the lookup, the page \<open>/x_swift_codes.html\<close> and the country \<open>x\<close>; the ledger
  file holds the loaded ledger with \<open>XX\<close> mapped to the clock reading taken when the
  walk of the partition ended; two pages were requested and one name was looked up.
\<close>

theorem end_to_end_single_partition:
  assumes dir: "http_get e BROWSE_URL = Inr dir"
    and links: "collect_links (anchors dir) = [(''/x_swift_codes.html'', ''X'')]"
    and pg: "http_get e (BASE_URL @ ''/x_swift_codes.html'') = Inr pg"
    and rows: "page_rows pg = [bank_a]"
    and nxt: "page_next pg = None"
    and iso: "fst (lookup_iso e ''x'' st) = (Some ''XX'', i3, nm)"
    and store: "mongo_connect e = Inl err"
    and first: "load_freshness st ''XX'' = None"
  shows "main e st
     = Some (None,
         st\<lparr>freshness_file :=
               Some ((load_freshness st)(''XX'' \<mapsto> isoformat e (utc_datetime (clock e (ticks st))))),
            data_file :=
               Some [\<lparr>name = ''Bank A'', swift_code = ''AAAABBCC'', city = ''Town'',
                      branch = ''HQ'', iso_code = Some ''XX'', iso3 = i3, country = ''x'',
                      page = ''/x_swift_codes.html'', createdAt = None, updatedAt = None\<rparr>],
            requested := requested st @ [BROWSE_URL, BASE_URL @ ''/x_swift_codes.html''],
            lookups := lookups st @ [''x''],
            ticks := Suc (ticks st)\<rparr>)"
proof -
  let ?st0 = "st\<lparr>requested := requested st @ [BROWSE_URL]\<rparr>"
  let ?st1 = "?st0\<lparr>lookups := lookups st @ [''x'']\<rparr>"
  let ?st2 = "?st1\<lparr>requested := requested st @ [BROWSE_URL, BASE_URL @ ''/x_swift_codes.html'']\<rparr>"
  let ?F = "load_freshness st"
  let ?doc = "decorate (Some ''XX'') i3 ''x'' ''/x_swift_codes.html'' bank_a"
  have l: "get_country_links e st = (Inr [(''/x_swift_codes.html'', ''X'')], ?st0)"
    using dir links by (simp add: get_country_links_def fetch_html_def)
  have i: "lookup_iso e ''x'' ?st0 = ((Some ''XX'', i3, nm), ?st1)"
    using lookup_iso_world [of "''x''" e ?st0 st] iso by simp
  have d: "should_scrape e (Some ''XX'') ?F ?st1 = (Inr (True, ''No previous scrape recorded.''), ?st1)"
    using first by (simp add: should_scrape_def)
  have w: "walk e None (Some ''XX'') i3 ''x'' (Some ''/x_swift_codes.html'') [] ?st1
             = Some (None, [?doc], ?st2)"
    using walk_page_no_store [of "''/x_swift_codes.html''" e pg "Some ''XX''" i3 "''x''" "[]" ?st1]
      pg rows nxt
    by (simp add: walk_stop)
  have s: "scrape_country e ''/x_swift_codes.html'' ''X'' None (Some ?F) (Some []) ?st0
             = Some (None, ?F(''XX'' \<mapsto> isoformat e (utc_datetime (clock e (ticks st)))), [?doc],
                     ?st2\<lparr>ticks := Suc (ticks st)\<rparr>)"
    using i d w by (simp add: scrape_country_def example_country_name utcnow_def Let_def)
  have c: "main_collect e st
             = Some (Inr (?F(''XX'' \<mapsto> isoformat e (utc_datetime (clock e (ticks st)))), [?doc]),
                     ?st2\<lparr>ticks := Suc (ticks st)\<rparr>)"
    using l s store by (simp add: main_collect_def get_mongo_collection_def Let_def)
  show ?thesis
    using c by (simp add: main_def finish_def save_freshness_def decorate_def bank_a_def)
qed

theorem end_to_end_single_partition_witness:
  "main example_env first_run
     = Some (None,
         first_run\<lparr>freshness_file := Some [''XX'' \<mapsto> ''2024-01-01T00:00:01+00:00''],
            data_file :=
               Some [\<lparr>name = ''Bank A'', swift_code = ''AAAABBCC'', city = ''Town'',
                      branch = ''HQ'', iso_code = Some ''XX'', iso3 = Some ''XXX'', country = ''x'',
                      page = ''/x_swift_codes.html'', createdAt = None, updatedAt = None\<rparr>],
            requested := [BROWSE_URL, BASE_URL @ ''/x_swift_codes.html''],
            lookups := [''x''],
            ticks := 1\<rparr>)"
  using end_to_end_single_partition [of example_env example_directory example_page first_run
      "Some ''XXX''" "Some ''Xland''" "PyMongoError ''ServerSelectionTimeoutError''"]
  by (simp add: example_env_sel example_http_def BROWSE_URL_def BASE_URL_def example_directory_def
      example_page_def page_rows_def page_next_def bank_a_def lookup_iso_def lookup_iso_try_def
      load_freshness_def first_run_def utc_datetime_def example_isoformat_1s)

section \<open>Walks over page chains\<close>

lemma truncate_decorate: "row.truncate (decorate i2 i3 cn path r) = r"
  by (simp add: row.defs decorate_def)

lemma truncate_stamp: "row.truncate (stamp now d) = row.truncate d"
  by (simp add: row.defs stamp_def)

lemma page_decorate: "page (decorate i2 i3 cn path r) = path"
  by (simp add: decorate_def)

lemma page_stamp: "page (stamp now d) = page d"
  by (simp add: stamp_def)

lemma save_documents_mongo_requested:
  "requested (snd (snd (save_documents_mongo e c docs st))) = requested st"
  by (simp add: save_documents_mongo_def utcnow_def Let_def split: option.splits)

lemma walk_page:
  assumes "path \<noteq> []" and "http_get e (BASE_URL @ path) = Inr sp"
  shows "\<exists>docs st1.
           walk e coll i2 i3 cn (Some path) acc st
             = walk e coll i2 i3 cn (page_next sp) (acc @ docs) st1
           \<and> requested st1 = requested st @ [BASE_URL @ path]
           \<and> map row.truncate docs = page_rows sp
           \<and> map page docs = map (\<lambda>r. path) (page_rows sp)
           \<and> (coll = None \<longrightarrow> docs = map (decorate i2 i3 cn path) (page_rows sp)
                 \<and> st1 = st\<lparr>requested := requested st @ [BASE_URL @ path]\<rparr>)"
proof (cases coll)
  case None
  show ?thesis
    unfolding None walk_page_no_store [OF assms]
    by (intro exI [of _ "map (decorate i2 i3 cn path) (page_rows sp)"]
        exI [of _ "st\<lparr>requested := requested st @ [BASE_URL @ path]\<rparr>"])
      (simp add: truncate_decorate page_decorate comp_def)
next
  case (Some c)
  let ?batch = "map (decorate i2 i3 cn path) (page_rows sp)"
  let ?st0 = "st\<lparr>requested := requested st @ [BASE_URL @ path]\<rparr>"
  obtain caught docs st2 where s: "save_documents_mongo e c ?batch ?st0 = (caught, docs, st2)"
    by (cases "save_documents_mongo e c ?batch ?st0") auto
  have docs: "docs = map (stamp (utc_datetime (clock e (ticks ?st0)))) ?batch"
    using save_documents_mongo_docs [of e c ?batch ?st0] s by simp
  have req: "requested st2 = requested st @ [BASE_URL @ path]"
    using save_documents_mongo_requested [of e c ?batch ?st0] s by simp
  have "walk e (Some c) i2 i3 cn (Some path) acc st
          = walk e (Some c) i2 i3 cn (page_next sp) (acc @ docs) st2"
    using walk_page_store [OF assms, of c i2 i3 cn acc st] s by simp
  then show ?thesis
    using Some docs req
    by (intro exI [of _ docs] exI [of _ st2])
      (simp add: truncate_decorate truncate_stamp page_decorate page_stamp comp_def)
qed

text \<open>
  Claim C4. For every finite page chain whose last page has no next page, the walk that
  starts at its first page returns, and returns without an exception; it requests exactly
  the pages of the chain, in order, and nothing after the last; the rows of the documents
  it appends are exactly the rows of the pages, concatenated in page order, each document
  carrying the path of its page; and without a document store the appended documents are
  exactly the decorated rows and nothing else of the world changes.
\<close>

theorem walk_finite_chain:
  assumes "chain e cp pages"
  shows "\<exists>acc' st'.
           walk e coll i2 i3 cn cp acc st = Some (None, acc', st')
           \<and> requested st' = requested st @ map (\<lambda>(path, sp). BASE_URL @ path) pages
           \<and> map row.truncate acc'
               = map row.truncate acc @ concat (map (\<lambda>(path, sp). page_rows sp) pages)
           \<and> map page acc'
               = map page acc @ concat (map (\<lambda>(path, sp). map (\<lambda>r. path) (page_rows sp)) pages)
           \<and> (coll = None \<longrightarrow>
                 acc' = acc @ concat (map (\<lambda>(path, sp). map (decorate i2 i3 cn path) (page_rows sp))
                                       pages)
                 \<and> st' = st\<lparr>requested := requested st @ map (\<lambda>(path, sp). BASE_URL @ path) pages\<rparr>)"
  using assms
proof (induction pages arbitrary: cp acc st)
  case Nil
  then show ?case
    by (auto simp add: walk_stop)
next
  case (Cons p rest)
  obtain path sp where p: "p = (path, sp)"
    by (cases p) auto
  from Cons.prems p have cp: "cp = Some path" and path: "path \<noteq> []"
    and get: "http_get e (BASE_URL @ path) = Inr sp" and rest: "chain e (page_next sp) rest"
    by simp_all
  from walk_page [OF path get, of coll i2 i3 cn acc st] obtain docs st1 where
    step: "walk e coll i2 i3 cn (Some path) acc st
             = walk e coll i2 i3 cn (page_next sp) (acc @ docs) st1"
    and req: "requested st1 = requested st @ [BASE_URL @ path]"
    and rows: "map row.truncate docs = page_rows sp"
    and pages: "map page docs = map (\<lambda>r. path) (page_rows sp)"
    and plain: "coll = None \<longrightarrow> docs = map (decorate i2 i3 cn path) (page_rows sp)
                 \<and> st1 = st\<lparr>requested := requested st @ [BASE_URL @ path]\<rparr>"
    by blast
  from Cons.IH [OF rest, of "acc @ docs" st1] obtain acc' st' where
    w: "walk e coll i2 i3 cn (page_next sp) (acc @ docs) st1 = Some (None, acc', st')"
    and r: "requested st' = requested st1 @ map (\<lambda>(path, sp). BASE_URL @ path) rest"
    and t: "map row.truncate acc'
              = map row.truncate (acc @ docs) @ concat (map (\<lambda>(path, sp). page_rows sp) rest)"
    and g: "map page acc'
              = map page (acc @ docs)
                @ concat (map (\<lambda>(path, sp). map (\<lambda>r. path) (page_rows sp)) rest)"
    and n: "coll = None \<longrightarrow>
              acc' = (acc @ docs)
                     @ concat (map (\<lambda>(path, sp). map (decorate i2 i3 cn path) (page_rows sp)) rest)
              \<and> st' = st1\<lparr>requested := requested st1 @ map (\<lambda>(path, sp). BASE_URL @ path) rest\<rparr>"
    by blast
  show ?case
    using cp p step w r t g n req rows pages plain
    by (intro exI [of _ acc'] exI [of _ st']) simp
qed

lemma three_pages_chain:
  "chain three_pages_env (Some ''/c_swift_codes.html'')
     [(''/c_swift_codes.html'', one_row_page ''Bank A'' (Some ''/c_swift_codes_page_2.html'')),
      (''/c_swift_codes_page_2.html'', one_row_page ''Bank B'' (Some ''/c_swift_codes_page_3.html'')),
      (''/c_swift_codes_page_3.html'', one_row_page ''Bank C'' None)]"
  by (simp add: three_pages_env_def three_pages_http_def BASE_URL_def page_next_def
      one_row_page_def)

theorem walk_finite_chain_witness:
  "walk three_pages_env None (Some ''CC'') None ''c'' (Some ''/c_swift_codes.html'') [] first_run
     = Some (None,
         [\<lparr>name = ''Bank A'', swift_code = ''AAAABBCC'', city = ''Town'', branch = ''HQ'',
           iso_code = Some ''CC'', iso3 = None, country = ''c'',
           page = ''/c_swift_codes.html'', createdAt = None, updatedAt = None\<rparr>,
          \<lparr>name = ''Bank B'', swift_code = ''AAAABBCC'', city = ''Town'', branch = ''HQ'',
           iso_code = Some ''CC'', iso3 = None, country = ''c'',
           page = ''/c_swift_codes_page_2.html'', createdAt = None, updatedAt = None\<rparr>,
          \<lparr>name = ''Bank C'', swift_code = ''AAAABBCC'', city = ''Town'', branch = ''HQ'',
           iso_code = Some ''CC'', iso3 = None, country = ''c'',
           page = ''/c_swift_codes_page_3.html'', createdAt = None, updatedAt = None\<rparr>],
         first_run\<lparr>requested := [''https://www.theswiftcodes.com/c_swift_codes.html'',
                                  ''https://www.theswiftcodes.com/c_swift_codes_page_2.html'',
                                  ''https://www.theswiftcodes.com/c_swift_codes_page_3.html'']\<rparr>)"
  using walk_finite_chain [OF three_pages_chain, of None "Some ''CC''" None "''c''" "[]" first_run]
  by (auto simp add: BASE_URL_def page_rows_def one_row_page_def decorate_def first_run_def)

lemma lookup_iso_requested:
  "requested (snd (lookup_iso e nm st)) = requested st"
  by (simp add: lookup_iso_def)

lemma should_scrape_requested:
  "requested (snd (should_scrape e i2 F st)) = requested st"
  by (simp add: should_scrape_def utcnow_def split: option.splits sum.splits)

lemma walk_broken_chain:
  assumes "broken_chain e cp good bad err"
  shows "\<exists>acc' st'.
           walk e coll i2 i3 cn cp acc st = Some (Some err, acc', st')
           \<and> requested st'
               = requested st @ map (\<lambda>(path, sp). BASE_URL @ path) good @ [BASE_URL @ bad]
           \<and> map row.truncate acc'
               = map row.truncate acc @ concat (map (\<lambda>(path, sp). page_rows sp) good)"
  using assms
proof (induction good arbitrary: cp acc st)
  case Nil
  then show ?case
    by (simp add: walk_fail)
next
  case (Cons p rest)
  obtain path sp where p: "p = (path, sp)"
    by (cases p) auto
  from Cons.prems p have cp: "cp = Some path" and path: "path \<noteq> []"
    and get: "http_get e (BASE_URL @ path) = Inr sp"
    and rest: "broken_chain e (page_next sp) rest bad err"
    by simp_all
  from walk_page [OF path get, of coll i2 i3 cn acc st] obtain docs st1 where
    step: "walk e coll i2 i3 cn (Some path) acc st
             = walk e coll i2 i3 cn (page_next sp) (acc @ docs) st1"
    and req: "requested st1 = requested st @ [BASE_URL @ path]"
    and rows: "map row.truncate docs = page_rows sp"
    by blast
  from Cons.IH [OF rest, of "acc @ docs" st1] obtain acc' st' where
    w: "walk e coll i2 i3 cn (page_next sp) (acc @ docs) st1 = Some (Some err, acc', st')"
    and r: "requested st'
              = requested st1 @ map (\<lambda>(path, sp). BASE_URL @ path) rest @ [BASE_URL @ bad]"
    and t: "map row.truncate acc'
              = map row.truncate (acc @ docs) @ concat (map (\<lambda>(path, sp). page_rows sp) rest)"
    by blast
  show ?case
    using cp p step w r t req rows
    by (intro exI [of _ acc'] exI [of _ st']) simp
qed

lemma walk_broken_chain_no_store:
  assumes "broken_chain e cp good bad err"
  shows "walk e None i2 i3 cn cp acc st
           = Some (Some err,
               acc @ concat (map (\<lambda>(path, sp). map (decorate i2 i3 cn path) (page_rows sp)) good),
               st\<lparr>requested := requested st @ map (\<lambda>(path, sp). BASE_URL @ path) good
                                  @ [BASE_URL @ bad]\<rparr>)"
  using assms
proof (induction good arbitrary: cp acc st)
  case Nil
  then show ?case
    by (simp add: walk_fail)
next
  case (Cons p rest)
  obtain path sp where p: "p = (path, sp)"
    by (cases p) auto
  from Cons.prems p have cp: "cp = Some path" and path: "path \<noteq> []"
    and get: "http_get e (BASE_URL @ path) = Inr sp"
    and rest: "broken_chain e (page_next sp) rest bad err"
    by simp_all
  show ?case
    using cp p walk_page_no_store [OF path get, of i2 i3 cn acc st]
      Cons.IH [OF rest, of "acc @ map (decorate i2 i3 cn path) (page_rows sp)"
        "st\<lparr>requested := requested st @ [BASE_URL @ path]\<rparr>"]
    by simp
qed

text \<open>
  Claim C2. When the partition is due and its chain breaks at the page \<open>bad\<close> after the
  pages \<open>good\<close> (the request for \<open>bad\<close> raises \<open>err\<close>), \<open>scrape_country\<close> is left by
  \<open>err\<close> with the ledger it was given, unchanged; the accumulator has grown by exactly the
  rows of the pages before \<open>bad\<close>; the last page requested is \<open>bad\<close>, so no later page of
  the partition is fetched. The loop of \<open>main\<close> catches the exception: over this partition
  alone it returns, with that ledger and that accumulator, and over this partition and
  further ones it goes on with the further ones from that ledger and that accumulator.
  Without a document store the new documents are exactly the decorated rows of the pages
  before \<open>bad\<close>, and the world differs only by the requests.
\<close>

theorem page_failure_keeps_earlier_pages:
  assumes lookup: "lookup_iso e (country_name_of href label) st = ((i2, i3, nm), st1)"
    and decide: "should_scrape e i2 F st1 = (Inr (True, reason), st2)"
    and broken: "broken_chain e (Some href) good bad err"
  shows "\<exists>acc' st'.
           scrape_country e href label coll (Some F) (Some acc) st = Some (Some err, F, acc', st')
           \<and> map row.truncate acc'
               = map row.truncate acc @ concat (map (\<lambda>(path, sp). page_rows sp) good)
           \<and> requested st'
               = requested st @ map (\<lambda>(path, sp). BASE_URL @ path) good @ [BASE_URL @ bad]
           \<and> main_loop e coll [(href, label)] F acc st = Some (F, acc', st')
           \<and> main_loop e coll ((href, label) # rest) F acc st = main_loop e coll rest F acc' st'
           \<and> (coll = None \<longrightarrow>
                 acc' = acc @ concat (map (\<lambda>(path, sp).
                                  map (decorate i2 i3 (country_name_of href label) path)
                                      (page_rows sp)) good)
                 \<and> st' = st2\<lparr>requested := requested st
                                  @ map (\<lambda>(path, sp). BASE_URL @ path) good @ [BASE_URL @ bad]\<rparr>)"
proof -
  have r1: "requested st1 = requested st"
    using lookup_iso_requested [of e "country_name_of href label" st] lookup by simp
  have r2: "requested st2 = requested st"
    using should_scrape_requested [of e i2 F st1] decide r1 by simp
  from walk_broken_chain [OF broken, of coll i2 i3 "country_name_of href label" acc st2]
  obtain acc' st' where
    w: "walk e coll i2 i3 (country_name_of href label) (Some href) acc st2
          = Some (Some err, acc', st')"
    and r: "requested st'
              = requested st2 @ map (\<lambda>(path, sp). BASE_URL @ path) good @ [BASE_URL @ bad]"
    and t: "map row.truncate acc'
              = map row.truncate acc @ concat (map (\<lambda>(path, sp). page_rows sp) good)"
    by blast
  have s: "scrape_country e href label coll (Some F) (Some acc) st = Some (Some err, F, acc', st')"
    using lookup decide w by (simp add: scrape_country_def Let_def)
  have n: "acc' = acc @ concat (map (\<lambda>(path, sp).
                                  map (decorate i2 i3 (country_name_of href label) path)
                                      (page_rows sp)) good)
           \<and> st' = st2\<lparr>requested := requested st
                                  @ map (\<lambda>(path, sp). BASE_URL @ path) good @ [BASE_URL @ bad]\<rparr>"
    if "coll = None"
    using w that r2
      walk_broken_chain_no_store [OF broken, of i2 i3 "country_name_of href label" acc st2]
    by simp
  show ?thesis
    using s r t r2 n
    by (intro exI [of _ acc'] exI [of _ st']) simp
qed

lemma broken_pages_chain:
  "broken_chain broken_pages_env (Some ''/c_swift_codes.html'')
     [(''/c_swift_codes.html'', one_row_page ''Bank A'' (Some ''/c_swift_codes_page_2.html''))]
     ''/c_swift_codes_page_2.html'' (RequestException ''500 Server Error'')"
  by (simp add: broken_pages_env_def three_pages_env_def three_pages_http_def BASE_URL_def
      page_next_def one_row_page_def)

lemma broken_pages_country_name: "country_name_of ''/c_swift_codes.html'' ''C'' = ''c''"
  by code_simp

lemma broken_pages_lookup:
  "lookup_iso broken_pages_env (country_name_of ''/c_swift_codes.html'' ''C'') first_run
     = ((Some ''XX'', Some ''XXX'', Some ''Xland''), first_run\<lparr>lookups := [''c'']\<rparr>)"
  by (simp add: broken_pages_country_name lookup_iso_def lookup_iso_try_def broken_pages_env_def
      three_pages_env_def example_env_def first_run_def)

lemma broken_pages_decision:
  "should_scrape broken_pages_env (Some ''XX'') Map.empty (first_run\<lparr>lookups := [''c'']\<rparr>)
     = (Inr (True, ''No previous scrape recorded.''), first_run\<lparr>lookups := [''c'']\<rparr>)"
  by (simp add: should_scrape_def)

lemma broken_pages_sel:
  "http_get broken_pages_env ''https://www.theswiftcodes.com/c_swift_codes.html''
     = Inr (one_row_page ''Bank A'' (Some ''/c_swift_codes_page_2.html''))"
  "http_get broken_pages_env ''https://www.theswiftcodes.com/c_swift_codes_page_2.html''
     = Inl (RequestException ''500 Server Error'')"
  "http_get broken_pages_env ''https://www.theswiftcodes.com/c_swift_codes_page_3.html''
     = Inr (one_row_page ''Bank C'' None)"
  "iso_service broken_pages_env nm
     = Inr (Results [Country (Some ''XX'') (Some ''XXX'') (NameObject (Some ''Xland''))])"
  "clock broken_pages_env n = 1704067201000000 + 1000000 * int n"
  "isoformat broken_pages_env = example_isoformat"
  by (simp_all add: broken_pages_env_def three_pages_env_def three_pages_http_def example_env_def)

lemma broken_pages_next_name: "country_name_of ''/c_swift_codes_page_3.html'' ''C'' = ''c''"
  by code_simp

lemma broken_pages_loop:
  "main_loop broken_pages_env None
       [(''/c_swift_codes.html'', ''C''), (''/c_swift_codes_page_3.html'', ''C'')]
       Map.empty [] first_run
     = Some ([''XX'' \<mapsto> ''2024-01-01T00:00:01+00:00''],
         [\<lparr>name = ''Bank A'', swift_code = ''AAAABBCC'', city = ''Town'', branch = ''HQ'',
           iso_code = Some ''XX'', iso3 = Some ''XXX'', country = ''c'',
           page = ''/c_swift_codes.html'', createdAt = None, updatedAt = None\<rparr>,
          \<lparr>name = ''Bank C'', swift_code = ''AAAABBCC'', city = ''Town'', branch = ''HQ'',
           iso_code = Some ''XX'', iso3 = Some ''XXX'', country = ''c'',
           page = ''/c_swift_codes_page_3.html'', createdAt = None, updatedAt = None\<rparr>],
         \<lparr>freshness_file = None, data_file = None,
          requested = [''https://www.theswiftcodes.com/c_swift_codes.html'',
                       ''https://www.theswiftcodes.com/c_swift_codes_page_2.html'',
                       ''https://www.theswiftcodes.com/c_swift_codes_page_3.html''],
          lookups = [''c'', ''c''], stored = [], ticks = 1\<rparr>)"
  by (simp add: scrape_country_def broken_pages_country_name broken_pages_next_name
      lookup_iso_def lookup_iso_try_def should_scrape_def walk.simps parse_country_page_def
      fetch_html_def BASE_URL_def broken_pages_sel page_rows_def page_next_def one_row_page_def
      decorate_def first_run_def utcnow_def utc_datetime_def example_isoformat_1s Let_def)

theorem page_failure_keeps_earlier_pages_witness:
  "(\<exists>acc' st'.
     scrape_country broken_pages_env ''/c_swift_codes.html'' ''C'' None (Some Map.empty) (Some [])
         first_run
       = Some (Some (RequestException ''500 Server Error''), Map.empty, acc', st')
     \<and> map row.truncate acc'
         = [\<lparr>name = ''Bank A'', swift_code = ''AAAABBCC'', city = ''Town'', branch = ''HQ''\<rparr>]
     \<and> requested st' = [''https://www.theswiftcodes.com/c_swift_codes.html'',
                         ''https://www.theswiftcodes.com/c_swift_codes_page_2.html'']
     \<and> main_loop broken_pages_env None [(''/c_swift_codes.html'', ''C'')] Map.empty [] first_run
         = Some (Map.empty, acc', st')
     \<and> main_loop broken_pages_env None [(''/c_swift_codes_page_3.html'', ''C'')] Map.empty acc' st'
         = Some ([''XX'' \<mapsto> ''2024-01-01T00:00:01+00:00''],
         [\<lparr>name = ''Bank A'', swift_code = ''AAAABBCC'', city = ''Town'', branch = ''HQ'',
           iso_code = Some ''XX'', iso3 = Some ''XXX'', country = ''c'',
           page = ''/c_swift_codes.html'', createdAt = None, updatedAt = None\<rparr>,
          \<lparr>name = ''Bank C'', swift_code = ''AAAABBCC'', city = ''Town'', branch = ''HQ'',
           iso_code = Some ''XX'', iso3 = Some ''XXX'', country = ''c'',
           page = ''/c_swift_codes_page_3.html'', createdAt = None, updatedAt = None\<rparr>],
         \<lparr>freshness_file = None, data_file = None,
          requested = [''https://www.theswiftcodes.com/c_swift_codes.html'',
                       ''https://www.theswiftcodes.com/c_swift_codes_page_2.html'',
                       ''https://www.theswiftcodes.com/c_swift_codes_page_3.html''],
          lookups = [''c'', ''c''], stored = [], ticks = 1\<rparr>))"
  using page_failure_keeps_earlier_pages [OF broken_pages_lookup broken_pages_decision
      broken_pages_chain, of None "[]" "[(''/c_swift_codes_page_3.html'', ''C'')]"]
    broken_pages_loop
  apply (elim exE conjE)
  apply (intro exI conjI)
      apply assumption
     apply (simp add: page_rows_def one_row_page_def)
    apply (simp add: BASE_URL_def first_run_def)
   apply assumption
  apply (simp only:)
  done

section \<open>The identity normalizer\<close>

lemma py_join_Cons:
  "py_join sep (w # ws) = (if ws = [] then w else w @ sep @ py_join sep ws)"
  by (cases ws) simp_all

lemma py_join_snoc:
  "py_join sep (ws @ [w]) = (if ws = [] then w else py_join sep ws @ sep @ w)"
  by (induction sep ws rule: py_join.induct) simp_all

lemma rev_py_join: "rev (py_join sep ws) = py_join (rev sep) (map rev (rev ws))"
proof (induction ws)
  case Nil
  show ?case by simp
next
  case (Cons w ws)
  then show ?case
    by (simp add: py_join_Cons py_join_snoc)
qed

lemma py_split_Nil: "py_split [] = []"
  by (simp add: py_split.simps)

lemma py_split_space: "is_space c \<Longrightarrow> py_split (c # s) = py_split s"
  by (simp add: py_split.simps [of "c # s"] py_split.simps [of s])

lemma py_split_words:
  "w \<in> set (py_split s) \<Longrightarrow> w \<noteq> [] \<and> (\<forall>c\<in>set w. \<not> is_space c \<and> c \<in> set s)"
proof (induction s arbitrary: w rule: py_split.induct)
  case (1 s)
  show ?case
  proof (cases "dropWhile is_space s")
    case Nil
    with "1.prems" show ?thesis
      by (simp add: py_split.simps [of s])
  next
    case (Cons c cs)
    have c: "\<not> is_space c"
      using Cons hd_dropWhile [of is_space s] by simp
    have sub: "set (c # cs) \<subseteq> set s"
      using Cons set_dropWhileD [of _ is_space s] by auto
    from "1.prems" Cons have "w = c # takeWhile (\<lambda>x. \<not> is_space x) cs
        \<or> w \<in> set (py_split (dropWhile (\<lambda>x. \<not> is_space x) cs))"
      by (simp add: py_split.simps [of s])
    then show ?thesis
    proof
      assume w: "w = c # takeWhile (\<lambda>x. \<not> is_space x) cs"
      have "\<forall>x\<in>set (takeWhile (\<lambda>x. \<not> is_space x) cs). \<not> is_space x \<and> x \<in> set cs"
        using set_takeWhileD [of _ "\<lambda>x. \<not> is_space x" cs] by blast
      with w c sub show ?thesis
        by auto
    next
      assume "w \<in> set (py_split (dropWhile (\<lambda>x. \<not> is_space x) cs))"
      from "1.IH" [OF Cons this]
      have "w \<noteq> [] \<and> (\<forall>x\<in>set w. \<not> is_space x
               \<and> x \<in> set (dropWhile (\<lambda>x. \<not> is_space x) cs))"
        by simp
      moreover have "set (dropWhile (\<lambda>x. \<not> is_space x) cs) \<subseteq> set cs"
        using set_dropWhileD [of _ "\<lambda>x. \<not> is_space x" cs] by blast
      ultimately show ?thesis
        using sub by auto
    qed
  qed
qed

lemma is_space_blank: "is_space CHR '' ''"
  by (simp add: is_space_def)

lemma py_split_one_word:
  assumes "w \<noteq> []" and "\<forall>c\<in>set w. \<not> is_space c"
  shows "py_split w = [w]"
proof -
  obtain c cs where w: "w = c # cs"
    using assms(1) by (cases w) auto
  have c: "\<not> is_space c" and cs: "\<forall>x\<in>set cs. \<not> is_space x"
    using w assms(2) by simp_all
  have t: "takeWhile (\<lambda>x. \<not> is_space x) cs = cs"
    using cs by (simp add: takeWhile_eq_all_conv)
  have d: "dropWhile (\<lambda>x. \<not> is_space x) cs = []"
    using cs by simp
  show ?thesis
    unfolding w by (subst py_split.simps) (simp add: c t d py_split_Nil)
qed

lemma py_split_word_blank:
  assumes "w \<noteq> []" and "\<forall>c\<in>set w. \<not> is_space c"
  shows "py_split (w @ CHR '' '' # rest) = w # py_split rest"
proof -
  obtain c cs where w: "w = c # cs"
    using assms(1) by (cases w) auto
  have c: "\<not> is_space c" and cs: "\<forall>x\<in>set cs. \<not> is_space x"
    using w assms(2) by simp_all
  have t: "takeWhile (\<lambda>x. \<not> is_space x) (cs @ CHR '' '' # rest) = cs"
    using cs by (simp add: takeWhile_append2 is_space_blank)
  have d: "dropWhile (\<lambda>x. \<not> is_space x) (cs @ CHR '' '' # rest) = CHR '' '' # rest"
    using cs by (simp add: dropWhile_append2 is_space_blank)
  show ?thesis
    unfolding w
    by (subst py_split.simps) (simp add: c t d py_split_space is_space_blank)
qed

lemma py_split_join:
  assumes "\<forall>w\<in>set ws. w \<noteq> [] \<and> (\<forall>c\<in>set w. \<not> is_space c)"
  shows "py_split (py_join '' '' ws) = ws"
  using assms
proof (induction ws)
  case Nil
  show ?case by (simp add: py_split_Nil)
next
  case (Cons w ws)
  show ?case
  proof (cases ws)
    case Nil
    with Cons.prems show ?thesis
      by (simp add: py_split_one_word)
  next
    case (Cons v vs)
    with Cons.prems Cons.IH show ?thesis
      by (simp add: py_split_word_blank)
  qed
qed

lemma set_py_join: "c \<in> set (py_join '' '' ws) \<Longrightarrow> c = CHR '' '' \<or> (\<exists>w\<in>set ws. c \<in> set w)"
  by (induction "'' ''" ws rule: py_join.induct) auto

lemma py_replace_id: "a \<notin> set s \<Longrightarrow> py_replace a b s = s"
  by (induction s) (auto simp add: py_replace_def)

lemma py_replace_gone: "a \<noteq> b \<Longrightarrow> a \<notin> set (py_replace a b s)"
  by (induction s) (simp_all add: py_replace_def)

lemma py_replace_keeps: "c \<notin> set s \<Longrightarrow> c \<noteq> b \<Longrightarrow> c \<notin> set (py_replace a b s)"
  by (induction s) (simp_all add: py_replace_def)

text \<open>Dropping from the left of joined words gives joined words.\<close>

lemma dropWhile_py_join:
  assumes "P CHR '' ''" and "\<forall>w\<in>set ws. w \<noteq> [] \<and> set w \<subseteq> A"
  shows "\<exists>ws'. (\<forall>w\<in>set ws'. w \<noteq> [] \<and> set w \<subseteq> A)
              \<and> dropWhile P (py_join '' '' ws) = py_join '' '' ws'"
  using assms(2)
proof (induction ws)
  case Nil
  show ?case
    by (intro exI [of _ "[]"]) simp
next
  case (Cons w ws)
  from Cons.prems have ws: "\<forall>w\<in>set ws. w \<noteq> [] \<and> set w \<subseteq> A" and w: "w \<noteq> []" "set w \<subseteq> A"
    by simp_all
  from Cons.IH [OF ws] obtain ws' where
    ws': "\<forall>w\<in>set ws'. w \<noteq> [] \<and> set w \<subseteq> A"
    and d: "dropWhile P (py_join '' '' ws) = py_join '' '' ws'"
    by blast
  show ?case
  proof (cases "\<forall>c\<in>set w. P c")
    case True
    show ?thesis
    proof (cases ws)
      case Nil
      with True show ?thesis
        by (intro exI [of _ "[]"]) simp
    next
      case (Cons v vs)
      with True d assms(1) have "dropWhile P (py_join '' '' (w # ws)) = py_join '' '' ws'"
        by (simp add: dropWhile_append2)
      with ws' show ?thesis
        by blast
    qed
  next
    case False
    then obtain c where c: "c \<in> set w" "\<not> P c"
      by blast
    have ne: "dropWhile P w \<noteq> []"
      using c by (auto simp add: dropWhile_eq_Nil_conv)
    have sub: "set (dropWhile P w) \<subseteq> A"
      using w(2) set_dropWhileD [of _ P w] by blast
    have "dropWhile P (py_join '' '' (w # ws)) = py_join '' '' (dropWhile P w # ws)"
      using c by (simp add: py_join_Cons dropWhile_append1)
    with ne sub ws show ?thesis
      by (intro exI [of _ "dropWhile P w # ws"]) simp
  qed
qed

lemma strip_while_py_join:
  assumes "P CHR '' ''" and "\<forall>w\<in>set ws. w \<noteq> [] \<and> set w \<subseteq> A"
  shows "\<exists>ws'. (\<forall>w\<in>set ws'. w \<noteq> [] \<and> set w \<subseteq> A)
              \<and> strip_while P (py_join '' '' ws) = py_join '' '' ws'"
proof -
  from dropWhile_py_join [of P ws A, OF assms] obtain ws1 where
    ws1: "\<forall>w\<in>set ws1. w \<noteq> [] \<and> set w \<subseteq> A"
    and d1: "dropWhile P (py_join '' '' ws) = py_join '' '' ws1"
    by blast
  have "\<forall>w\<in>set (map rev (rev ws1)). w \<noteq> [] \<and> set w \<subseteq> A"
    using ws1 by simp
  from dropWhile_py_join [of P "map rev (rev ws1)" A, OF assms(1) this] obtain ws2 where
    ws2: "\<forall>w\<in>set ws2. w \<noteq> [] \<and> set w \<subseteq> A"
    and d2: "dropWhile P (py_join '' '' (map rev (rev ws1))) = py_join '' '' ws2"
    by blast
  have "strip_while P (py_join '' '' ws) = py_join '' '' (map rev (rev ws2))"
    using d1 d2 by (simp add: strip_while_def rev_py_join)
  moreover have "\<forall>w\<in>set (map rev (rev ws2)). w \<noteq> [] \<and> set w \<subseteq> A"
    using ws2 by simp
  ultimately show ?thesis
    by blast
qed


lemma dropWhile_id: "xs = [] \<or> \<not> P (hd xs) \<Longrightarrow> dropWhile P xs = xs"
  by (cases xs) auto

lemma strip_while_id:
  assumes "s = [] \<or> (\<not> P (hd s) \<and> \<not> P (last s))"
  shows "strip_while P s = s"
proof -
  have "dropWhile P s = s"
    using assms by (intro dropWhile_id) blast
  moreover have "rev s = [] \<or> \<not> P (hd (rev s))"
    using assms by (cases "s = []") (simp_all add: hd_rev)
  then have "dropWhile P (rev s) = rev s"
    by (rule dropWhile_id)
  ultimately show ?thesis
    by (simp add: strip_while_def)
qed

lemma last_dropWhile: "dropWhile P xs \<noteq> [] \<Longrightarrow> last (dropWhile P xs) = last xs"
  using takeWhile_dropWhile_id [of P xs] last_appendR [of "dropWhile P xs" "takeWhile P xs"]
  by simp

lemma strip_while_ends:
  "strip_while P s = [] \<or> (\<not> P (hd (strip_while P s)) \<and> \<not> P (last (strip_while P s)))"
proof (cases "strip_while P s = []")
  case True
  then show ?thesis by simp
next
  case False
  define v where "v = dropWhile P s"
  define u where "u = dropWhile P (rev v)"
  have t: "strip_while P s = rev u"
    by (simp add: strip_while_def u_def v_def)
  from False t have u: "u \<noteq> []"
    by simp
  have rv: "rev v \<noteq> []"
  proof
    assume "rev v = []"
    then have "u = []"
      by (simp add: u_def)
    with u show False
      by simp
  qed
  then have v: "v \<noteq> []"
    by simp
  have "\<not> P (hd u)"
    using u hd_dropWhile [of P "rev v"] by (simp add: u_def)
  then have l: "\<not> P (last (rev u))"
    using u by (simp add: last_rev)
  have "last u = last (rev v)"
    using u last_dropWhile [of P "rev v"] by (simp add: u_def)
  also have "\<dots> = hd v"
    using v by (simp add: last_rev)
  finally have "hd (rev u) = hd v"
    using u by (simp add: hd_rev)
  moreover have "\<not> P (hd v)"
    using v hd_dropWhile [of P s] by (simp add: v_def)
  ultimately show ?thesis
    using l t by simp
qed

lemma strip_while_idem: "strip_while P (strip_while P s) = strip_while P s"
  using strip_while_ends [of P s] by (rule strip_while_id)

lemma hd_py_join: "ws \<noteq> [] \<Longrightarrow> hd ws \<noteq> [] \<Longrightarrow> hd (py_join sep ws) = hd (hd ws)"
  by (cases ws) (simp_all add: py_join_Cons)

lemma py_join_not_Nil: "ws \<noteq> [] \<Longrightarrow> hd ws \<noteq> [] \<Longrightarrow> py_join sep ws \<noteq> []"
  by (cases ws) (simp_all add: py_join_Cons)

lemma py_strip_join:
  assumes "\<forall>w\<in>set ws. w \<noteq> [] \<and> (\<forall>c\<in>set w. \<not> is_space c)"
  shows "py_strip (py_join '' '' ws) = py_join '' '' ws"
proof (cases "ws = []")
  case True
  then show ?thesis by (simp add: py_strip_def strip_while_def)
next
  case False
  then have mem: "hd ws \<in> set ws" "last ws \<in> set ws"
    by simp_all
  then have ne: "hd ws \<noteq> []" "last ws \<noteq> []"
    using assms by blast+
  have sp: "\<not> is_space (hd (hd ws))" "\<not> is_space (last (last ws))"
    using assms mem ne by simp_all
  have h: "hd (py_join '' '' ws) = hd (hd ws)"
    using False ne(1) by (rule hd_py_join)
  have r: "map rev (rev ws) \<noteq> []"
    using False by simp
  have hr: "hd (map rev (rev ws)) = rev (last ws)"
    using False by (simp add: hd_map hd_rev)
  then have rne: "hd (map rev (rev ws)) \<noteq> []"
    using ne(2) by simp
  have "last (py_join '' '' ws) = hd (rev (py_join '' '' ws))"
    by (simp add: hd_rev)
  also have "\<dots> = hd (py_join '' '' (map rev (rev ws)))"
    by (simp add: rev_py_join)
  also have "\<dots> = hd (hd (map rev (rev ws)))"
    using r rne by (rule hd_py_join)
  also have "\<dots> = last (last ws)"
    using hr by (simp add: hd_rev)
  finally have l: "last (py_join '' '' ws) = last (last ws)" .
  show ?thesis
    using h l sp by (simp add: py_strip_def strip_while_id)
qed


lemma py_join_ends:
  assumes "ws \<noteq> []" and "\<forall>w\<in>set ws. w \<noteq> []"
  shows "hd (py_join '' '' ws) = hd (hd ws)" and "last (py_join '' '' ws) = last (last ws)"
    and "py_join '' '' ws \<noteq> []"
proof -
  from assms have mem: "hd ws \<in> set ws" "last ws \<in> set ws"
    by simp_all
  then have ne: "hd ws \<noteq> []" "last ws \<noteq> []"
    using assms by blast+
  show "hd (py_join '' '' ws) = hd (hd ws)"
    using assms(1) ne(1) by (rule hd_py_join)
  show "py_join '' '' ws \<noteq> []"
    using assms(1) ne(1) by (rule py_join_not_Nil)
  have r: "map rev (rev ws) \<noteq> []"
    using assms(1) by simp
  have hr: "hd (map rev (rev ws)) = rev (last ws)"
    using assms(1) by (simp add: hd_map hd_rev)
  then have rne: "hd (map rev (rev ws)) \<noteq> []"
    using ne(2) by simp
  have "last (py_join '' '' ws) = hd (rev (py_join '' '' ws))"
    by (simp add: hd_rev)
  also have "\<dots> = hd (py_join '' '' (map rev (rev ws)))"
    by (simp add: rev_py_join)
  also have "\<dots> = hd (hd (map rev (rev ws)))"
    using r rne by (rule hd_py_join)
  also have "\<dots> = last (last ws)"
    using hr by (simp add: hd_rev)
  finally show "last (py_join '' '' ws) = last (last ws)" .
qed

lemma strip_while_eq_iff:
  "strip_while P s = s \<longleftrightarrow> s = [] \<or> (\<not> P (hd s) \<and> \<not> P (last s))"
  using strip_while_ends [of P s] strip_while_id [of s P] by auto

lemma normalize_words:
  "\<exists>ws. (\<forall>w\<in>set ws. w \<noteq> [] \<and> set w \<subseteq> {c. \<not> is_space c \<and> c \<noteq> CHR ''_'' \<and> c \<noteq> CHR ''-''})
         \<and> normalize_country_name x = py_join '' '' ws"
proof (cases "x = []")
  case True
  then show ?thesis
    by (intro exI [of _ "[]"]) (simp add: normalize_country_name_def)
next
  case False
  define s3 where "s3 = py_replace CHR ''-'' CHR '' '' (py_replace CHR ''_'' CHR '' ''
      (py_strip_chars [CHR ''/'', CHR ''_'', CHR ''.'', CHR '' '', CHR 0x09, CHR 0x0D, CHR 0x0A]
         (py_strip x)))"
  have n: "normalize_country_name x = py_join '' '' (py_split s3)"
    using False by (simp add: normalize_country_name_def s3_def)
  have a: "CHR ''-'' \<notin> set s3"
    unfolding s3_def by (rule py_replace_gone) simp
  have b: "CHR ''_'' \<notin> set s3"
    unfolding s3_def by (intro py_replace_keeps py_replace_gone) simp_all
  have "w \<noteq> [] \<and> set w \<subseteq> {c. \<not> is_space c \<and> c \<noteq> CHR ''_'' \<and> c \<noteq> CHR ''-''}"
    if "w \<in> set (py_split s3)" for w
    using py_split_words [OF that] a b by auto
  with n show ?thesis
    by blast
qed

lemma normalize_joined:
  assumes "\<forall>w\<in>set ws. w \<noteq> [] \<and> set w \<subseteq> {c. \<not> is_space c \<and> c \<noteq> CHR ''_'' \<and> c \<noteq> CHR ''-''}"
  shows "normalize_country_name (py_join '' '' ws)
           = py_strip_chars [CHR ''/'', CHR ''_'', CHR ''.'', CHR '' '', CHR 0x09, CHR 0x0D, CHR 0x0A]
               (py_join '' '' ws)"
proof (cases "py_join '' '' ws = []")
  case True
  then show ?thesis
    by (simp add: normalize_country_name_def py_strip_chars_def strip_while_def)
next
  case False
  have sp: "\<forall>w\<in>set ws. w \<noteq> [] \<and> (\<forall>c\<in>set w. \<not> is_space c)"
    using assms by blast
  have s1: "py_strip (py_join '' '' ws) = py_join '' '' ws"
    using sp by (rule py_strip_join)
  from strip_while_py_join [of "\<lambda>c. c \<in> set [CHR ''/'', CHR ''_'', CHR ''.'', CHR '' '',
        CHR 0x09, CHR 0x0D, CHR 0x0A]" ws
      "{c. \<not> is_space c \<and> c \<noteq> CHR ''_'' \<and> c \<noteq> CHR ''-''}"] assms
  obtain ws2 where
    ws2: "\<forall>w\<in>set ws2. w \<noteq> [] \<and> set w \<subseteq> {c. \<not> is_space c \<and> c \<noteq> CHR ''_'' \<and> c \<noteq> CHR ''-''}"
    and s2: "py_strip_chars [CHR ''/'', CHR ''_'', CHR ''.'', CHR '' '', CHR 0x09, CHR 0x0D,
               CHR 0x0A] (py_join '' '' ws) = py_join '' '' ws2"
    unfolding py_strip_chars_def by auto
  have u: "CHR ''_'' \<notin> set (py_join '' '' ws2)"
    using set_py_join [of "CHR ''_''" ws2] ws2 by auto
  have d: "CHR ''-'' \<notin> set (py_join '' '' ws2)"
    using set_py_join [of "CHR ''-''" ws2] ws2 by auto
  have s3: "py_replace CHR ''-'' CHR '' '' (py_replace CHR ''_'' CHR '' '' (py_join '' '' ws2))
              = py_join '' '' ws2"
    using u d by (simp add: py_replace_id)
  have "\<forall>w\<in>set ws2. w \<noteq> [] \<and> (\<forall>c\<in>set w. \<not> is_space c)"
    using ws2 by blast
  then have s4: "py_join '' '' (py_split (py_join '' '' ws2)) = py_join '' '' ws2"
    by (simp add: py_split_join)
  show ?thesis
    using False by (simp add: normalize_country_name_def s1 s2 s3 s4)
qed

text \<open>
  \<open>normalize_country_name\<close> is not idempotent on every string: the dash of \<open>-/a\<close> is not
  trimmed, it becomes a blank that the collapse of blanks removes, which leaves \<open>/a\<close>; a
  second application trims the slash.
\<close>

theorem normalize_not_idempotent_counterexample:
  "normalize_country_name ''-/a'' = ''/a''
   \<and> normalize_country_name (normalize_country_name ''-/a'') = ''a''
   \<and> normalize_country_name (normalize_country_name ''-/a'') \<noteq> normalize_country_name ''-/a''"
  by code_simp

text \<open>
  Claim C8, amended. \<open>normalize_country_name\<close> is a total function and gives the empty
  string for the empty string. Applying it to one of its results does no more than trim
  the result again (the characters \<open>/\<close>, \<open>_\<close>, \<open>.\<close>, blank, tab, carriage return and line
  feed at both ends). So it is idempotent at \<open>x\<close> exactly when its result for \<open>x\<close> is
  empty or neither begins nor ends with \<open>/\<close> or \<open>.\<close>; and in every case a third
  application changes nothing.
\<close>

theorem normalize_twice_strips_only:
  "normalize_country_name [] = []
   \<and> normalize_country_name (normalize_country_name x)
       = py_strip_chars [CHR ''/'', CHR ''_'', CHR ''.'', CHR '' '', CHR 0x09, CHR 0x0D, CHR 0x0A]
           (normalize_country_name x)
   \<and> (normalize_country_name (normalize_country_name x) = normalize_country_name x
        \<longleftrightarrow> normalize_country_name x = []
            \<or> (hd (normalize_country_name x) \<noteq> CHR ''/''
                \<and> hd (normalize_country_name x) \<noteq> CHR ''.''
                \<and> last (normalize_country_name x) \<noteq> CHR ''/''
                \<and> last (normalize_country_name x) \<noteq> CHR ''.''))
   \<and> normalize_country_name (normalize_country_name (normalize_country_name x))
       = normalize_country_name (normalize_country_name x)"
proof -
  let ?D = "[CHR ''/'', CHR ''_'', CHR ''.'', CHR '' '', CHR 0x09, CHR 0x0D, CHR 0x0A]"
  let ?A = "{c. \<not> is_space c \<and> c \<noteq> CHR ''_'' \<and> c \<noteq> CHR ''-''}"
  let ?y = "normalize_country_name x"
  from normalize_words [of x] obtain ws where
    ws: "\<forall>w\<in>set ws. w \<noteq> [] \<and> set w \<subseteq> ?A" and y: "?y = py_join '' '' ws"
    by blast
  have empty: "normalize_country_name [] = []"
    by (simp add: normalize_country_name_def)
  have twice: "normalize_country_name ?y = py_strip_chars ?D ?y"
    unfolding y using ws by (rule normalize_joined)
  from strip_while_py_join [of "\<lambda>c. c \<in> set ?D" ws ?A] ws
  obtain ws2 where
    ws2: "\<forall>w\<in>set ws2. w \<noteq> [] \<and> set w \<subseteq> ?A"
    and s2: "py_strip_chars ?D (py_join '' '' ws) = py_join '' '' ws2"
    unfolding py_strip_chars_def by auto
  have "normalize_country_name (py_strip_chars ?D ?y) = py_strip_chars ?D (py_strip_chars ?D ?y)"
    unfolding y s2 using ws2 by (rule normalize_joined)
  also have "\<dots> = py_strip_chars ?D ?y"
    by (simp add: py_strip_chars_def strip_while_idem)
  finally have thrice: "normalize_country_name (normalize_country_name ?y)
                          = normalize_country_name ?y"
    by (simp add: twice)
  have ends: "hd ?y \<in> ?A \<and> last ?y \<in> ?A" if "?y \<noteq> []"
  proof -
    from that y have wne: "ws \<noteq> []"
      by auto
    have ne: "\<forall>w\<in>set ws. w \<noteq> []"
      using ws by blast
    from wne have mem: "hd ws \<in> set ws" "last ws \<in> set ws"
      by simp_all
    then have "hd (hd ws) \<in> set (hd ws)" "last (last ws) \<in> set (last ws)"
      using ne by simp_all
    then have "hd (hd ws) \<in> ?A" "last (last ws) \<in> ?A"
      using ws mem by blast+
    then show ?thesis
      using py_join_ends [OF wne ne] y by simp
  qed
  have inD: "c \<in> set ?D \<longleftrightarrow> c = CHR ''/'' \<or> c = CHR ''.''" if "c \<in> ?A" for c
    using that by (auto simp add: is_space_def)
  have iff: "normalize_country_name ?y = ?y
        \<longleftrightarrow> ?y = []
            \<or> (hd ?y \<noteq> CHR ''/'' \<and> hd ?y \<noteq> CHR ''.''
                \<and> last ?y \<noteq> CHR ''/'' \<and> last ?y \<noteq> CHR ''.'')"
  proof (cases "?y = []")
    case True
    then show ?thesis
      by (simp add: empty)
  next
    case False
    from ends [OF False] have "hd ?y \<in> ?A" "last ?y \<in> ?A"
      by simp_all
    then have "hd ?y \<in> set ?D \<longleftrightarrow> hd ?y = CHR ''/'' \<or> hd ?y = CHR ''.''"
      and "last ?y \<in> set ?D \<longleftrightarrow> last ?y = CHR ''/'' \<or> last ?y = CHR ''.''"
      using inD by blast+
    then show ?thesis
      using False strip_while_eq_iff [of "\<lambda>c. c \<in> set ?D" ?y]
      unfolding twice py_strip_chars_def by blast
  qed
  show ?thesis
    using empty twice iff thrice by blast
qed

theorem normalize_twice_strips_only_witness:
  "normalize_country_name ''a_b-c'' = ''a b c''
   \<and> normalize_country_name (normalize_country_name ''a_b-c'') = normalize_country_name ''a_b-c''"
proof -
  have e: "normalize_country_name ''a_b-c'' = ''a b c''"
    by code_simp
  have "normalize_country_name (normalize_country_name ''a_b-c'') = normalize_country_name ''a_b-c''
        \<longleftrightarrow> normalize_country_name ''a_b-c'' = []
            \<or> (hd (normalize_country_name ''a_b-c'') \<noteq> CHR ''/''
                \<and> hd (normalize_country_name ''a_b-c'') \<noteq> CHR ''.''
                \<and> last (normalize_country_name ''a_b-c'') \<noteq> CHR ''/''
                \<and> last (normalize_country_name ''a_b-c'') \<noteq> CHR ''.'')"
    using normalize_twice_strips_only [of "''a_b-c''"] by blast
  then show ?thesis
    unfolding e by simp
qed

section \<open>Failure of the document store\<close>

text \<open>
  Two runs in environments that differ only in what \<open>insert_many\<close> answers, from worlds
  that differ only in the contents of the store, give the same results and again worlds
  that differ only in the contents of the store.
\<close>

lemma lookup_iso_sim:
  assumes "outside_store su = outside_store st" and "lookup_iso e nm st = (t, st1)"
  shows "\<exists>su1. lookup_iso (e\<lparr>insert_many := f\<rparr>) nm su = (t, su1)
               \<and> outside_store su1 = outside_store st1"
  using assms
  by (auto simp add: lookup_iso_def lookup_iso_try_def outside_store_def split: if_splits)

lemma save_documents_mongo_sim:
  assumes "outside_store su = outside_store st"
  shows "fst (snd (save_documents_mongo (e\<lparr>insert_many := f\<rparr>) c docs su))
           = fst (snd (save_documents_mongo e c docs st))
         \<and> outside_store (snd (snd (save_documents_mongo (e\<lparr>insert_many := f\<rparr>) c docs su)))
           = outside_store (snd (snd (save_documents_mongo e c docs st)))"
  using assms
  by (simp add: save_documents_mongo_def utcnow_def outside_store_def Let_def
      split: option.splits)

lemma should_scrape_sim_parts:
  assumes "outside_store su = outside_store st"
  shows "fst (should_scrape (e\<lparr>insert_many := f\<rparr>) i2 F su) = fst (should_scrape e i2 F st)"
    and "outside_store (snd (should_scrape (e\<lparr>insert_many := f\<rparr>) i2 F su))
           = outside_store (snd (should_scrape e i2 F st))"
  using assms
  by (simp_all add: should_scrape_def utcnow_def outside_store_def
      split: option.splits sum.splits)

lemma should_scrape_sim:
  assumes "outside_store su = outside_store st" and "should_scrape e i2 F st = (d, st1)"
  shows "\<exists>su1. should_scrape (e\<lparr>insert_many := f\<rparr>) i2 F su = (d, su1)
               \<and> outside_store su1 = outside_store st1"
  using should_scrape_sim_parts [OF assms(1), where e = e and f = f and ?i2.0 = i2 and F = F] assms(2)
  by (intro exI [of _ "snd (should_scrape (e\<lparr>insert_many := f\<rparr>) i2 F su)"])
    (simp add: prod_eq_iff)

lemma walk_sim:
  assumes "walk e coll i2 i3 cn cp acc st = Some y" and "outside_store su = outside_store st"
  shows "\<exists>su'. walk (e\<lparr>insert_many := f\<rparr>) coll i2 i3 cn cp acc su = Some (fst y, fst (snd y), su')
              \<and> outside_store su' = outside_store (snd (snd y))"
  using assms
proof (induct arbitrary: su rule: walk_induct)
  case (step walk e coll i2 i3 cn cp acc st y)
  let ?e = "e\<lparr>insert_many := f\<rparr>"
  show ?case
  proof (cases cp)
    case None
    with step(2,3) show ?thesis
      by (auto simp add: walk_stop)
  next
    case (Some path)
    show ?thesis
    proof (cases "path = []")
      case True
      with step(2,3) Some show ?thesis
        by (auto simp add: walk_stop)
    next
      case False
      let ?st1 = "st\<lparr>requested := requested st @ [BASE_URL @ path]\<rparr>"
      let ?su1 = "su\<lparr>requested := requested su @ [BASE_URL @ path]\<rparr>"
      have o1: "outside_store ?su1 = outside_store ?st1"
        using step(3) by (simp add: outside_store_def)
      show ?thesis
      proof (cases "http_get e (BASE_URL @ path)")
        case (Inl err)
        then have "http_get ?e (BASE_URL @ path) = Inl err"
          by simp
        from walk_fail [OF False this, of coll i2 i3 cn acc su]
        have "Spec2Isabelle.walk ?e coll i2 i3 cn cp acc su = Some (Some err, acc, ?su1)"
          using Some by simp
        moreover from step(2) Some False Inl have "y = (Some err, acc, ?st1)"
          by (auto simp add: parse_country_page_def fetch_html_def)
        ultimately show ?thesis
          using o1 by simp
      next
        case (Inr sp)
        then have get: "http_get ?e (BASE_URL @ path) = Inr sp"
          by simp
        let ?batch = "map (decorate i2 i3 cn path) (page_rows sp)"
        show ?thesis
        proof (cases coll)
          case None
          with step(2) Some False Inr
          have "walk e None i2 i3 cn (page_next sp) (acc @ ?batch) ?st1 = Some y"
            by (simp add: parse_country_page_def fetch_html_def)
          from step(1) [OF this o1] obtain su' where
            "Spec2Isabelle.walk ?e None i2 i3 cn (page_next sp) (acc @ ?batch) ?su1
               = Some (fst y, fst (snd y), su')"
            and "outside_store su' = outside_store (snd (snd y))"
            by blast
          then show ?thesis
            using walk_page_no_store [OF False get, of i2 i3 cn acc su] None \<open>cp = Some path\<close>
            by simp
        next
          case (Some c)
          obtain caught docs st2 where s: "save_documents_mongo e c ?batch ?st1 = (caught, docs, st2)"
            by (cases "save_documents_mongo e c ?batch ?st1") auto
          obtain caught' docs' su2 where
            s': "save_documents_mongo ?e c ?batch ?su1 = (caught', docs', su2)"
            by (cases "save_documents_mongo ?e c ?batch ?su1") auto
          from save_documents_mongo_sim [OF o1, where e = e and f = f and c = c and docs = ?batch] s s'
          have same: "docs' = docs" and o2: "outside_store su2 = outside_store st2"
            by simp_all
          from step(2) \<open>cp = Some path\<close> False Inr Some s
          have "walk e (Some c) i2 i3 cn (page_next sp) (acc @ docs) st2 = Some y"
            by (simp add: parse_country_page_def fetch_html_def)
          from step(1) [OF this o2] obtain su' where
            "Spec2Isabelle.walk ?e (Some c) i2 i3 cn (page_next sp) (acc @ docs) su2
               = Some (fst y, fst (snd y), su')"
            and "outside_store su' = outside_store (snd (snd y))"
            by blast
          then show ?thesis
            using walk_page_store [OF False get, of c i2 i3 cn acc su] s' same Some
              \<open>cp = Some path\<close>
            by simp
        qed
      qed
    qed
  qed
qed

lemma scrape_country_sim:
  assumes run: "scrape_country e href label coll (Some F) (Some acc) st = Some (r, F', acc', st')"
    and o: "outside_store su = outside_store st"
  shows "\<exists>su'. scrape_country (e\<lparr>insert_many := f\<rparr>) href label coll (Some F) (Some acc) su
                  = Some (r, F', acc', su')
              \<and> outside_store su' = outside_store st'"
proof -
  let ?e = "e\<lparr>insert_many := f\<rparr>"
  let ?F = F
  let ?A = acc
  let ?cn = "country_name_of href label"
  obtain i2 i3 nm st1 where l: "lookup_iso e ?cn st = ((i2, i3, nm), st1)"
    by (metis prod_cases3 surj_pair)
  from lookup_iso_sim [OF o l, of f] obtain su1 where
    l': "lookup_iso ?e ?cn su = ((i2, i3, nm), su1)" and o1: "outside_store su1 = outside_store st1"
    by blast
  obtain d st2 where s: "should_scrape e i2 ?F st1 = (d, st2)"
    by (cases "should_scrape e i2 ?F st1") auto
  from should_scrape_sim [OF o1 s, of f] obtain su2 where
    s': "should_scrape ?e i2 ?F su1 = (d, su2)" and o2: "outside_store su2 = outside_store st2"
    by blast
  show ?thesis
  proof (cases d)
    case (Inl err)
    with run l s l' s' o2 show ?thesis
      by (simp add: scrape_country_def Let_def)
  next
    case (Inr p)
    obtain ok reason where p: "p = (ok, reason)"
      by (cases p) auto
    show ?thesis
    proof (cases ok)
      case False
      with run l s l' s' o2 Inr p show ?thesis
        by (simp add: scrape_country_def Let_def)
    next
      case True
      show ?thesis
      proof (cases "walk e coll i2 i3 ?cn (Some href) ?A st2")
        case None
        with run l s Inr p True show ?thesis
          by (simp add: scrape_country_def Let_def)
      next
        case (Some y)
        obtain wr docs st3 where y: "y = (wr, docs, st3)"
          by (cases y) auto
        from walk_sim [OF Some o2, of f] y obtain su3 where
          w': "walk ?e coll i2 i3 ?cn (Some href) ?A su2 = Some (wr, docs, su3)"
          and o3: "outside_store su3 = outside_store st3"
          by auto
        have t: "ticks su3 = ticks st3"
          using o3 by (simp add: outside_store_def)
        have o4: "outside_store (su3\<lparr>ticks := Suc (ticks su3)\<rparr>)
                    = outside_store (st3\<lparr>ticks := Suc (ticks st3)\<rparr>)"
          using o3 by (simp add: outside_store_def)
        from run l s Inr p True Some y
        have "(r, F', acc', st') = (wr, ?F, docs, st3) \<and> (wr \<noteq> None \<or> i2 = None \<or> i2 = Some [])
              \<or> (\<exists>code. wr = None \<and> i2 = Some code \<and> code \<noteq> [] \<and> (r, F', acc', st')
                    = (None, ?F(code \<mapsto> isoformat e (utc_datetime (clock e (ticks st3)))), docs,
                       st3\<lparr>ticks := Suc (ticks st3)\<rparr>))"
          by (auto simp add: scrape_country_def utcnow_def Let_def split: option.splits if_splits)
        then show ?thesis
        proof
          assume a: "(r, F', acc', st') = (wr, ?F, docs, st3)
                     \<and> (wr \<noteq> None \<or> i2 = None \<or> i2 = Some [])"
          then have "scrape_country ?e href label coll (Some F) (Some acc) su = Some (r, F', acc', su3)"
            using l' s' Inr p True w'
            by (auto simp add: scrape_country_def utcnow_def Let_def split: option.splits if_splits)
          with a o3 show ?thesis
            by auto
        next
          assume "\<exists>code. wr = None \<and> i2 = Some code \<and> code \<noteq> [] \<and> (r, F', acc', st')
                    = (None, ?F(code \<mapsto> isoformat e (utc_datetime (clock e (ticks st3)))), docs,
                       st3\<lparr>ticks := Suc (ticks st3)\<rparr>)"
          then obtain code where c: "wr = None" "i2 = Some code" "code \<noteq> []"
            and res: "(r, F', acc', st')
                    = (None, ?F(code \<mapsto> isoformat e (utc_datetime (clock e (ticks st3)))), docs,
                       st3\<lparr>ticks := Suc (ticks st3)\<rparr>)"
            by blast
          have "scrape_country ?e href label coll (Some F) (Some acc) su
                  = Some (r, F', acc', su3\<lparr>ticks := Suc (ticks su3)\<rparr>)"
            using l' s' Inr p True w' c res t
            by (simp add: scrape_country_def utcnow_def Let_def)
          with res o4 show ?thesis
            by auto
        qed
      qed
    qed
  qed
qed

lemma main_loop_sim:
  assumes "main_loop e coll links F acc st = Some (F', acc', st')"
    and "outside_store su = outside_store st"
  shows "\<exists>su'. main_loop (e\<lparr>insert_many := f\<rparr>) coll links F acc su = Some (F', acc', su')
              \<and> outside_store su' = outside_store st'"
  using assms
proof (induction links arbitrary: F acc st su)
  case Nil
  then show ?case by simp
next
  case (Cons link rest)
  obtain href label where link: "link = (href, label)"
    by (cases link) auto
  from Cons.prems(1) link obtain r F1 acc1 st1 where
    one: "scrape_country e href label coll (Some F) (Some acc) st = Some (r, F1, acc1, st1)"
    and more: "main_loop e coll rest F1 acc1 st1 = Some (F', acc', st')"
    by (auto split: option.splits)
  from scrape_country_sim [OF one Cons.prems(2), of f] obtain su1 where
    one': "scrape_country (e\<lparr>insert_many := f\<rparr>) href label coll (Some F) (Some acc) su
             = Some (r, F1, acc1, su1)"
    and o1: "outside_store su1 = outside_store st1"
    by blast
  from Cons.IH [OF more o1] obtain su' where
    "main_loop (e\<lparr>insert_many := f\<rparr>) coll rest F1 acc1 su1 = Some (F', acc', su')"
    and "outside_store su' = outside_store st'"
    by blast
  then show ?case
    using link one' by simp
qed

lemma main_collect_sim:
  assumes "main_collect e st = Some (res, st1)"
  shows "\<exists>su1. main_collect (e\<lparr>insert_many := f\<rparr>) st = Some (res, su1)
              \<and> outside_store su1 = outside_store st1"
proof (cases "http_get e BROWSE_URL")
  case (Inl err)
  with assms show ?thesis
    by (auto simp add: main_collect_def get_country_links_def fetch_html_def)
next
  case (Inr sp)
  let ?st0 = "st\<lparr>requested := requested st @ [BROWSE_URL]\<rparr>"
  let ?coll = "case mongo_connect e of Inl err \<Rightarrow> None | Inr c \<Rightarrow> Some c"
  from assms Inr obtain F docs where
    res: "res = Inr (F, docs)"
    and loop: "main_loop e ?coll (collect_links (anchors sp)) (load_freshness st) [] ?st0
                 = Some (F, docs, st1)"
    by (auto simp add: main_collect_def get_country_links_def fetch_html_def
        get_mongo_collection_def Let_def split: option.splits)
  from main_loop_sim [OF loop refl, of f] obtain su1 where
    "main_loop (e\<lparr>insert_many := f\<rparr>) ?coll (collect_links (anchors sp)) (load_freshness st) []
       ?st0 = Some (F, docs, su1)"
    and "outside_store su1 = outside_store st1"
    by blast
  then show ?thesis
    using Inr res
    by (simp add: main_collect_def get_country_links_def fetch_html_def
        get_mongo_collection_def Let_def)
qed

lemma walk_page_insert_fails:
  assumes "path \<noteq> []" and "http_get e (BASE_URL @ path) = Inr sp" and "page_rows sp \<noteq> []"
    and "insert_many e (map (stamp (utc_datetime (clock e (ticks w))))
                          (map (decorate i2 i3 cn path) (page_rows sp))) = Some err"
  shows "walk e (Some c) i2 i3 cn (Some path) acc w
           = walk e (Some c) i2 i3 cn (page_next sp)
               (acc @ map (stamp (utc_datetime (clock e (ticks w))))
                        (map (decorate i2 i3 cn path) (page_rows sp)))
               (w\<lparr>requested := requested w @ [BASE_URL @ path], ticks := Suc (ticks w)\<rparr>)"
  using walk_page_store [OF assms(1,2), of c i2 i3 cn acc w] assms(3,4)
  by (simp add: save_documents_mongo_def utcnow_def Let_def)

text \<open>
  Claim C3. When the store is configured and \<open>insert_many\<close> raises for the batch of a
  page, the exception does not leave the loop: the walk goes on with the next page, the
  batch (as the writer stamped it) appended to the accumulator. And what \<open>insert_many\<close>
  answers has no influence on the run outside the store: for every run of steps 1 to 4 of
  \<open>main\<close> and every other behaviour \<open>f\<close> of \<open>insert_many\<close> (one that always fails, for
  instance), the run with \<open>f\<close> ends with the same ledger and the same accumulator, and
  \<open>main\<close> with \<open>f\<close> leaves the same data file and the same ledger file.
\<close>

theorem insert_failure_keeps_documents:
  assumes "main_collect e st = Some (res, st1)"
  shows "(\<exists>su1. main_collect (e\<lparr>insert_many := f\<rparr>) st = Some (res, su1)
                \<and> outside_store su1 = outside_store st1)
         \<and> (\<exists>r st' su'. main e st = Some (r, st')
                \<and> main (e\<lparr>insert_many := f\<rparr>) st = Some (r, su')
                \<and> data_file su' = data_file st' \<and> freshness_file su' = freshness_file st'
                \<and> outside_store su' = outside_store st')
         \<and> (path \<noteq> [] \<and> http_get e (BASE_URL @ path) = Inr sp \<and> page_rows sp \<noteq> []
              \<and> insert_many e (map (stamp (utc_datetime (clock e (ticks w))))
                                 (map (decorate i2 i3 cn path) (page_rows sp))) = Some err
              \<longrightarrow> walk e (Some c) i2 i3 cn (Some path) acc w
                    = walk e (Some c) i2 i3 cn (page_next sp)
                        (acc @ map (stamp (utc_datetime (clock e (ticks w))))
                                 (map (decorate i2 i3 cn path) (page_rows sp)))
                        (w\<lparr>requested := requested w @ [BASE_URL @ path],
                           ticks := Suc (ticks w)\<rparr>))"
proof -
  from main_collect_sim [OF assms, of f] obtain su1 where
    c: "main_collect (e\<lparr>insert_many := f\<rparr>) st = Some (res, su1)"
    and o: "outside_store su1 = outside_store st1"
    by blast
  have first: "\<exists>su1. main_collect (e\<lparr>insert_many := f\<rparr>) st = Some (res, su1)
                \<and> outside_store su1 = outside_store st1"
    using c o by blast
  have second: "\<exists>r st' su'. main e st = Some (r, st')
                \<and> main (e\<lparr>insert_many := f\<rparr>) st = Some (r, su')
                \<and> data_file su' = data_file st' \<and> freshness_file su' = freshness_file st'
                \<and> outside_store su' = outside_store st'"
  proof (cases res)
    case (Inl err)
    show ?thesis
      using assms c o Inl
      by (intro exI [of _ "Some err"] exI [of _ st1] exI [of _ su1])
        (simp add: main_def outside_store_def)
  next
    case (Inr p)
    obtain F docs where p: "p = (F, docs)"
      by (cases p) auto
    show ?thesis
      using assms c o Inr p
      by (intro exI [of _ None] exI [of _ "finish F docs st1"] exI [of _ "finish F docs su1"])
        (simp add: main_def outside_store_def finish_def save_freshness_def)
  qed
  have third: "walk e (Some c) i2 i3 cn (Some path) acc w
                    = walk e (Some c) i2 i3 cn (page_next sp)
                        (acc @ map (stamp (utc_datetime (clock e (ticks w))))
                                 (map (decorate i2 i3 cn path) (page_rows sp)))
                        (w\<lparr>requested := requested w @ [BASE_URL @ path],
                           ticks := Suc (ticks w)\<rparr>)"
    if "path \<noteq> []" and "http_get e (BASE_URL @ path) = Inr sp" and "page_rows sp \<noteq> []"
      and "insert_many e (map (stamp (utc_datetime (clock e (ticks w))))
                                 (map (decorate i2 i3 cn path) (page_rows sp))) = Some err"
    using that by (rule walk_page_insert_fails)
  show ?thesis
    using first second third by blast
qed

theorem insert_failure_keeps_documents_witness:
  "(\<exists>su1. main_collect (example_env_store\<lparr>insert_many := failing_insert\<rparr>) first_run
       = Some (Inr ([''XX'' \<mapsto> ''2024-01-01T00:00:02+00:00''],
                  [\<lparr>name = ''Bank A'', swift_code = ''AAAABBCC'', city = ''Town'', branch = ''HQ'',
                    iso_code = Some ''XX'', iso3 = Some ''XXX'', country = ''x'',
                    page = ''/x_swift_codes.html'',
                    createdAt = Some \<lparr>wall = 1704067201000000, utcoffset = Some 0\<rparr>,
                    updatedAt = Some \<lparr>wall = 1704067201000000, utcoffset = Some 0\<rparr>\<rparr>]), su1)
     \<and> outside_store su1
         = (None, None, [''https://www.theswiftcodes.com/browse-by-country/'',
                         ''https://www.theswiftcodes.com/x_swift_codes.html''], [''x''], 2))
   \<and> insert_many (example_env_store\<lparr>insert_many := failing_insert\<rparr>) []
       = Some (PyMongoError ''BulkWriteError'')"
  using insert_failure_keeps_documents [OF example_store_collect, of failing_insert,
      THEN conjunct1]
  by (simp add: outside_store_def failing_insert_def)

end
